theory Spec2Isabelle
  imports Complex_Main "HOL-Library.AList"
begin

section \<open>Versioning engine (CrudOperations): data model\<close>

text \<open>
  Dates are compared through their millisecond value, so a timestamp is an integer.
  An optional JavaScript property is absent (\<open>Undefined\<close>), \<open>null\<close> or holds a value.
\<close>

type_synonym timestamp = int

datatype 'a js_opt = Undefined | Null | Defined 'a

datatype crud_error = NoActiveRecord | BackendFailure

text \<open>
  \<open>BaseRecord\<close> of \<open>types/index.ts\<close>. The column \<open>id\<close> (the entity id shared by all
  versions) is the field \<open>entityId\<close>; \<open>data\<close> is the open key/value document. The
  workspace id is an integer, as the column \<open>workspace_id INTEGER\<close> holds it.
\<close>

record 'v BaseRecord =
  rowId :: string
  workspaceId :: int
  entityId :: string
  name :: string
  data :: "string \<rightharpoonup> 'v"
  createdAt :: timestamp
  updatedAt :: timestamp
  deletedAt :: "timestamp option"

type_synonym 'v table = "'v BaseRecord list"

record 'v CreateRecordData =
  c_workspaceId :: int
  c_name :: string
  c_data :: "(string \<rightharpoonup> 'v) js_opt"

record 'v UpdateData =
  u_name :: "string js_opt"
  u_data :: "(string \<rightharpoonup> 'v) js_opt"

section \<open>The relational backend as a list of rows\<close>

text \<open>
  The table is the one \<open>generateCreateTableSql\<close> declares for Postgres:
  \<open>row_id UUID PRIMARY KEY\<close>, \<open>workspace_id INTEGER\<close>, \<open>id VARCHAR(255)\<close>,
  \<open>name VARCHAR(255)\<close>. The backend rejects a statement whose workspace id is not a
  32-bit integer, and a row whose \<open>id\<close> or \<open>name\<close> is longer than 255 characters or
  whose \<open>row_id\<close> is taken. Row ids are values of \<open>uuidv4()\<close>, which the column
  accepts. The model is this Postgres dialect of the table builder; apart from the
  constraints the table declares, the backend is taken to accept every statement.
\<close>

definition int32_ok :: "int \<Rightarrow> bool" where
  "int32_ok n = (- 2147483648 \<le> n \<and> n \<le> 2147483647)"

definition column_ok :: "'v BaseRecord \<Rightarrow> bool" where
  "column_ok r =
     (int32_ok (workspaceId r) \<and> length (entityId r) \<le> 255 \<and> length (name r) \<le> 255)"

text \<open>
  \<open>ORDER BY updated_at DESC\<close>: a stable sort on the negated key; rows with equal
  \<open>updatedAt\<close> keep their table order.
\<close>

definition orderBy_desc :: "('a \<Rightarrow> int) \<Rightarrow> 'a list \<Rightarrow> 'a list" where
  "orderBy_desc f xs = sort_key (\<lambda>r. - f r) xs"

text \<open>
  \<open>insert(table).values(r).returning()\<close>: a row the table cannot hold is rejected and
  nothing is written; otherwise the row is appended and returned.
\<close>

definition insert_values ::
  "'v table \<Rightarrow> 'v BaseRecord \<Rightarrow> (crud_error + 'v BaseRecord list) \<times> 'v table" where
  "insert_values tbl r =
     (if rowId r \<in> set (map rowId tbl) then (Inl BackendFailure, tbl)
      else if column_ok r then (Inr [r], tbl @ [r])
      else (Inl BackendFailure, tbl))"

text \<open>\<open>update(table).set(f).where(P).returning()\<close>: the rows changed, and the new table.\<close>

definition update_set ::
  "'v table \<Rightarrow> ('v BaseRecord \<Rightarrow> 'v BaseRecord) \<Rightarrow> ('v BaseRecord \<Rightarrow> bool)
     \<Rightarrow> 'v BaseRecord list \<times> 'v table" where
  "update_set tbl f P = (map f (filter P tbl), map (\<lambda>r. if P r then f r else r) tbl)"

section \<open>recordUtils.ts\<close>

text \<open>
  The rows of \<open>select().from(table).where(and(workspaceId = w, deletedAt IS NULL,
  ...conditions)).orderBy(desc(updatedAt))\<close>, when the backend accepts the statement.
\<close>

definition select_where_orderBy ::
  "'v table \<Rightarrow> int \<Rightarrow> ('v BaseRecord \<Rightarrow> bool) list \<Rightarrow> 'v BaseRecord list" where
  "select_where_orderBy tbl wsId conditions =
     orderBy_desc updatedAt
       (filter (\<lambda>r. workspaceId r = wsId \<and> deletedAt r = None \<and> list_all (\<lambda>c. c r) conditions) tbl)"

definition getLatestRecords ::
  "'v table \<Rightarrow> int \<Rightarrow> ('v BaseRecord \<Rightarrow> bool) list \<Rightarrow> crud_error + 'v BaseRecord list" where
  "getLatestRecords tbl wsId conditions =
     (if int32_ok wsId then Inr (select_where_orderBy tbl wsId conditions)
      else Inl BackendFailure)"

definition first_or_null :: "'a list \<Rightarrow> 'a option" where
  "first_or_null result = (case result of [] \<Rightarrow> None | r # _ \<Rightarrow> Some r)"

definition getLatestRecordById ::
  "'v table \<Rightarrow> int \<Rightarrow> string \<Rightarrow> crud_error + 'v BaseRecord option" where
  "getLatestRecordById tbl wsId i =
     (case getLatestRecords tbl wsId [\<lambda>r. entityId r = i] of
        Inl e \<Rightarrow> Inl e
      | Inr records \<Rightarrow> Inr (first_or_null records))"

section \<open>crudOperations.ts\<close>

text \<open>
  Each operation takes the table registered for the model and returns its result
  with the table afterwards; a model that is not registered raises before the table
  is touched. The values of \<open>uuidv4()\<close> and \<open>new Date()\<close> are arguments. A thrown
  error is \<open>Inl\<close>, a returned \<open>null\<close> or \<open>undefined\<close> is \<open>None\<close>.
\<close>

definition CrudOperations_create ::
  "'v table \<Rightarrow> 'v CreateRecordData \<Rightarrow> string \<Rightarrow> string \<Rightarrow> timestamp
     \<Rightarrow> (crud_error + 'v BaseRecord option) \<times> 'v table" where
  "CrudOperations_create tbl recordData newEntityId newRowId now =
     (let insertData =
        \<lparr> rowId = newRowId,
          workspaceId = c_workspaceId recordData,
          entityId = newEntityId,
          name = c_name recordData,
          data = (case c_data recordData of Defined d \<Rightarrow> d | _ \<Rightarrow> Map.empty),
          createdAt = now,
          updatedAt = now,
          deletedAt = None \<rparr>
      in case insert_values tbl insertData of
           (Inl e, t) \<Rightarrow> (Inl e, t)
         | (Inr result, t) \<Rightarrow> (Inr (first_or_null result), t))"

definition CrudOperations_get ::
  "'v table \<Rightarrow> int \<Rightarrow> string \<Rightarrow> crud_error + 'v BaseRecord option" where
  "CrudOperations_get tbl wsId i = getLatestRecordById tbl wsId i"

text \<open>
  The loop of \<open>getAll\<close> over a \<open>Map\<close> keyed by entity id: a \<open>Map\<close> keeps insertion
  order and \<open>set\<close> on a present key replaces the value in place.
\<close>

definition latest_step ::
  "(string \<times> 'v BaseRecord) list \<Rightarrow> 'v BaseRecord \<Rightarrow> (string \<times> 'v BaseRecord) list" where
  "latest_step latestRecordsMap record =
     (case map_of latestRecordsMap (entityId record) of
        None \<Rightarrow> AList.update (entityId record) record latestRecordsMap
      | Some existingRecord \<Rightarrow>
          if createdAt existingRecord < createdAt record
          then AList.update (entityId record) record latestRecordsMap
          else latestRecordsMap)"

definition CrudOperations_getAll :: "'v table \<Rightarrow> int \<Rightarrow> crud_error + 'v BaseRecord list" where
  "CrudOperations_getAll tbl wsId =
     (case getLatestRecords tbl wsId [] of
        Inl e \<Rightarrow> Inl e
      | Inr allActiveRecords \<Rightarrow> Inr (map snd (foldl latest_step [] allActiveRecords)))"

text \<open>
  \<open>a || b\<close> on the name: the empty string is falsy. On the data: every object is truthy,
  \<open>undefined\<close> and \<open>null\<close> are not; \<open>{...a, ...b}\<close> is the map \<open>a ++ b\<close>.
\<close>

definition name_or :: "string js_opt \<Rightarrow> string \<Rightarrow> string" where
  "name_or n prior = (case n of Defined s \<Rightarrow> if s = [] then prior else s | _ \<Rightarrow> prior)"

definition merge_data :: "(string \<rightharpoonup> 'v) \<Rightarrow> (string \<rightharpoonup> 'v) js_opt \<Rightarrow> (string \<rightharpoonup> 'v)" where
  "merge_data prior d = (case d of Defined m \<Rightarrow> prior ++ m | _ \<Rightarrow> prior)"

definition CrudOperations_update ::
  "'v table \<Rightarrow> int \<Rightarrow> string \<Rightarrow> 'v UpdateData \<Rightarrow> string \<Rightarrow> timestamp
     \<Rightarrow> (crud_error + 'v BaseRecord option) \<times> 'v table" where
  "CrudOperations_update tbl wsId i updateData newRowId now =
     (case getLatestRecordById tbl wsId i of
        Inl e \<Rightarrow> (Inl e, tbl)
      | Inr None \<Rightarrow> (Inl NoActiveRecord, tbl)
      | Inr (Some latestRecord) \<Rightarrow>
          (let newRecordData =
             \<lparr> rowId = newRowId,
               workspaceId = workspaceId latestRecord,
               entityId = entityId latestRecord,
               name = name_or (u_name updateData) (name latestRecord),
               data = merge_data (data latestRecord) (u_data updateData),
               createdAt = createdAt latestRecord,
               updatedAt = now,
               deletedAt = None \<rparr>
           in case insert_values tbl newRecordData of
                (Inl e, t) \<Rightarrow> (Inl e, t)
              | (Inr result, t) \<Rightarrow> (Inr (first_or_null result), t)))"

definition CrudOperations_delete ::
  "'v table \<Rightarrow> int \<Rightarrow> string \<Rightarrow> timestamp \<Rightarrow> (crud_error + bool) \<times> 'v table" where
  "CrudOperations_delete tbl wsId i now =
     (case getLatestRecordById tbl wsId i of
        Inl e \<Rightarrow> (Inl e, tbl)
      | Inr None \<Rightarrow> (Inr False, tbl)
      | Inr (Some activeRecord) \<Rightarrow>
          (case update_set tbl (\<lambda>r. r\<lparr>deletedAt := Some now, updatedAt := now\<rparr>)
                  (\<lambda>r. rowId r = rowId activeRecord \<and> deletedAt r = None) of
             (result, t) \<Rightarrow> (Inr (0 < length result), t)))"

section \<open>Tables of the engine\<close>

text \<open>
  \<open>createdAt\<close> is fixed along the version chain of an entity: the active rows of
  one workspace that share an entity id share their \<open>createdAt\<close>.
\<close>

definition createdAt_consistent :: "'v table \<Rightarrow> int \<Rightarrow> bool" where
  "createdAt_consistent tbl wsId =
     (\<forall>r\<in>set tbl. \<forall>r'\<in>set tbl.
        workspaceId r = wsId \<and> workspaceId r' = wsId \<and> deletedAt r = None \<and> deletedAt r' = None
          \<and> entityId r = entityId r' \<longrightarrow> createdAt r = createdAt r')"

text \<open>A table the backend can hold: unique row ids, every row within its columns.\<close>

definition table_ok :: "'v table \<Rightarrow> bool" where
  "table_ok tbl = (distinct (map rowId tbl) \<and> (\<forall>r\<in>set tbl. column_ok r))"

text \<open>
  The tables the engine itself writes, starting from the empty table; \<open>create\<close>
  draws an entity id that no row carries yet.
\<close>

inductive engine_table :: "'v table \<Rightarrow> bool" where
  empty: "engine_table []"
| create: "engine_table t \<Longrightarrow> newEntityId \<notin> entityId ` set t \<Longrightarrow>
     engine_table (snd (CrudOperations_create t recordData newEntityId newRowId now))"
| update: "engine_table t \<Longrightarrow>
     engine_table (snd (CrudOperations_update t wsId i updateData newRowId now))"
| delete: "engine_table t \<Longrightarrow> engine_table (snd (CrudOperations_delete t wsId i now))"

section \<open>Filter compiler (helpers/filterOperator.ts)\<close>

datatype FilterOperator =
  OpEq | OpNe | OpLt | OpGt | OpLte | OpGte | OpIn | OpPrefix | OpSuffix | OpSubstr

text \<open>The operator as the string the template \<open>`${field}_${operator}`\<close> prints.\<close>

fun op_name :: "FilterOperator \<Rightarrow> string" where
  "op_name OpEq = ''eq''"
| "op_name OpNe = ''ne''"
| "op_name OpLt = ''lt''"
| "op_name OpGt = ''gt''"
| "op_name OpLte = ''lte''"
| "op_name OpGte = ''gte''"
| "op_name OpIn = ''in''"
| "op_name OpPrefix = ''prefix''"
| "op_name OpSuffix = ''suffix''"
| "op_name OpSubstr = ''substr''"

record 'v Filter =
  field :: string
  operator :: FilterOperator
  fvalue :: 'v

definition RESERVED_QUERY_PARAMS :: "string list" where
  "RESERVED_QUERY_PARAMS = [''page'', ''limit'', ''sort'', ''select'', ''deleted'']"

definition endsWith :: "string \<Rightarrow> string \<Rightarrow> bool" where
  "endsWith key suffix =
     (length suffix \<le> length key \<and> drop (length key - length suffix) key = suffix)"

definition operatorMappings :: "(string \<times> FilterOperator \<times> nat) list" where
  "operatorMappings =
     [(''_prefix'', OpPrefix, 7), (''_suffix'', OpSuffix, 7), (''_substr'', OpSubstr, 7),
      (''_lte'', OpLte, 4), (''_gte'', OpGte, 4), (''_ne'', OpNe, 3),
      (''_lt'', OpLt, 3), (''_gt'', OpGt, 3), (''_in'', OpIn, 3)]"

text \<open>\<open>key.slice(0, -length)\<close> drops the last \<open>length\<close> characters.\<close>

definition parseFieldAndOperator :: "string \<Rightarrow> string \<times> FilterOperator" where
  "parseFieldAndOperator key =
     (case find (\<lambda>(suffix, oper, len). endsWith key suffix) operatorMappings of
        Some (suffix, oper, len) \<Rightarrow> (take (length key - len) key, oper)
      | None \<Rightarrow> (key, OpEq))"

text \<open>
  A parameter object is the association list of its own properties, in insertion
  order, which is how \<open>Object.entries\<close> reads it apart from the place of integer-like
  keys. \<open>fromQueryParams\<close> takes that list.
\<close>

definition fromQueryParams :: "(string \<times> 'v) list \<Rightarrow> 'v Filter list" where
  "fromQueryParams params =
     map (\<lambda>(key, v). \<lparr> field = fst (parseFieldAndOperator key),
                        operator = snd (parseFieldAndOperator key),
                        fvalue = v \<rparr>)
       (filter (\<lambda>(key, v). key \<notin> set RESERVED_QUERY_PARAMS) params)"

definition filter_key :: "'v Filter \<Rightarrow> string" where
  "filter_key f = (if operator f = OpEq then field f else field f @ ''_'' @ op_name (operator f))"

text \<open>
  \<open>params[key] = value\<close> on the object literal \<open>{}\<close>: the key \<open>__proto__\<close> is the
  accessor inherited from \<open>Object.prototype\<close>, so the assignment creates no own
  property; any other key gets the value, in place when the key is present and at
  the end when it is new. (An object assigned to \<open>__proto__\<close> becomes the prototype
  of \<open>params\<close>; the values here are not objects with properties of their own.)
\<close>

definition assign_property :: "(string \<times> 'v) list \<Rightarrow> string \<Rightarrow> 'v \<Rightarrow> (string \<times> 'v) list" where
  "assign_property params key v =
     (if key = ''__proto__'' then params else AList.update key v params)"

definition toQueryParams :: "'v Filter list \<Rightarrow> (string \<times> 'v) list" where
  "toQueryParams filters =
     foldl (\<lambda>params f. assign_property params (filter_key f) (fvalue f)) [] filters"

section \<open>Filter compiler of the library (utils/filter-operator.ts)\<close>

text \<open>
  The key is matched against \<open>/^(eq|ne|gt|lt|gte|lte|in|prefix|suffix|substr)_(.+)$/\<close>:
  an operator name, an underscore and a non-empty rest without line terminator.
\<close>

definition operatorMatch :: "string \<Rightarrow> (FilterOperator \<times> string) option" where
  "operatorMatch key =
     map_option (\<lambda>oper. (oper, drop (length (op_name oper) + 1) key))
       (find (\<lambda>oper. take (length (op_name oper) + 1) key = op_name oper @ ''_''
                    \<and> length (op_name oper) + 1 < length key
                    \<and> list_all (\<lambda>c. c \<noteq> CHR 0x0A \<and> c \<noteq> CHR 0x0D)
                         (drop (length (op_name oper) + 1) key))
          [OpEq, OpNe, OpGt, OpLt, OpGte, OpLte, OpIn, OpPrefix, OpSuffix, OpSubstr])"

definition lib_fromQueryParams :: "(string \<times> 'v) list \<Rightarrow> 'v Filter list" where
  "lib_fromQueryParams params =
     map (\<lambda>(key, v). case operatorMatch key of
                       Some (oper, fld) \<Rightarrow> \<lparr> field = fld, operator = oper, fvalue = v \<rparr>
                     | None \<Rightarrow> \<lparr> field = key, operator = OpEq, fvalue = v \<rparr>)
       (filter (\<lambda>(key, v). key \<notin> set [''page'', ''limit'', ''sort'', ''select'', ''deleted'']) params)"

section \<open>JavaScript numbers\<close>

text \<open>
  A number is \<open>NaN\<close>, an infinity or a finite value. \<open>Math.max\<close> and \<open>Math.min\<close> are
  exact and give \<open>NaN\<close> when an argument is \<open>NaN\<close>.
\<close>

datatype jsnum = NaN | NegInfinity | Finite real | PosInfinity

fun Math_max :: "jsnum \<Rightarrow> jsnum \<Rightarrow> jsnum" where
  "Math_max NaN y = NaN"
| "Math_max x NaN = NaN"
| "Math_max PosInfinity y = PosInfinity"
| "Math_max x PosInfinity = PosInfinity"
| "Math_max NegInfinity y = y"
| "Math_max x NegInfinity = x"
| "Math_max (Finite a) (Finite b) = Finite (max a b)"

fun Math_min :: "jsnum \<Rightarrow> jsnum \<Rightarrow> jsnum" where
  "Math_min NaN y = NaN"
| "Math_min x NaN = NaN"
| "Math_min NegInfinity y = NegInfinity"
| "Math_min x NegInfinity = NegInfinity"
| "Math_min PosInfinity y = y"
| "Math_min x PosInfinity = x"
| "Math_min (Finite a) (Finite b) = Finite (min a b)"

text \<open>
  What the model takes from the language as given: \<open>StringToNumber\<close>, the number a
  string converts to, and \<open>round_double\<close>, the double (or infinity) that an
  arithmetic operation returns for its exact result. A binary64 holds every integer
  up to \<open>2^53\<close> in absolute value exactly.
\<close>

record js_env =
  StringToNumber :: "string \<Rightarrow> jsnum"
  round_double :: "real \<Rightarrow> jsnum"

definition exact_on_safe_integers :: "js_env \<Rightarrow> bool" where
  "exact_on_safe_integers js =
     (\<forall>n::int. \<bar>n\<bar> \<le> 9007199254740992 \<longrightarrow> round_double js (of_int n) = Finite (of_int n))"

fun js_sub :: "js_env \<Rightarrow> jsnum \<Rightarrow> jsnum \<Rightarrow> jsnum" where
  "js_sub js (Finite a) (Finite b) = round_double js (a - b)"
| "js_sub js NaN y = NaN"
| "js_sub js x NaN = NaN"
| "js_sub js PosInfinity PosInfinity = NaN"
| "js_sub js NegInfinity NegInfinity = NaN"
| "js_sub js PosInfinity y = PosInfinity"
| "js_sub js NegInfinity y = NegInfinity"
| "js_sub js x PosInfinity = NegInfinity"
| "js_sub js x NegInfinity = PosInfinity"

definition infinity_of_sign :: "bool \<Rightarrow> jsnum" where
  "infinity_of_sign positive = (if positive then PosInfinity else NegInfinity)"

fun js_mul :: "js_env \<Rightarrow> jsnum \<Rightarrow> jsnum \<Rightarrow> jsnum" where
  "js_mul js (Finite a) (Finite b) = round_double js (a * b)"
| "js_mul js NaN y = NaN"
| "js_mul js x NaN = NaN"
| "js_mul js PosInfinity PosInfinity = PosInfinity"
| "js_mul js PosInfinity NegInfinity = NegInfinity"
| "js_mul js NegInfinity PosInfinity = NegInfinity"
| "js_mul js NegInfinity NegInfinity = PosInfinity"
| "js_mul js PosInfinity (Finite b) = (if b = 0 then NaN else infinity_of_sign (0 < b))"
| "js_mul js NegInfinity (Finite b) = (if b = 0 then NaN else infinity_of_sign (b < 0))"
| "js_mul js (Finite a) PosInfinity = (if a = 0 then NaN else infinity_of_sign (0 < a))"
| "js_mul js (Finite a) NegInfinity = (if a = 0 then NaN else infinity_of_sign (a < 0))"

text \<open>
  The values \<open>page\<close> and \<open>limit\<close> arrive as: a number (the declared type), a string
  (the route hands the raw query on), a boolean, \<open>null\<close>, an array of strings (a
  repeated query key) or a plain object. \<open>truthy\<close> is the test of \<open>||\<close>;
  \<open>ToNumber\<close> is the conversion \<open>Math.max\<close> applies to its argument.
\<close>

datatype qparam =
  PNull | PBool bool | PNum jsnum | PStr string | PArr "string list" | PObj

fun truthy :: "qparam \<Rightarrow> bool" where
  "truthy PNull = False"
| "truthy (PBool b) = b"
| "truthy (PNum NaN) = False"
| "truthy (PNum (Finite x)) = (x \<noteq> 0)"
| "truthy (PNum _) = True"
| "truthy (PStr s) = (s \<noteq> [])"
| "truthy (PArr ss) = True"
| "truthy PObj = True"

fun join_comma :: "string list \<Rightarrow> string" where
  "join_comma [] = []"
| "join_comma [s] = s"
| "join_comma (s # t # ss) = s @ '','' @ join_comma (t # ss)"

fun ToNumber :: "js_env \<Rightarrow> qparam \<Rightarrow> jsnum" where
  "ToNumber js PNull = Finite 0"
| "ToNumber js (PBool b) = Finite (if b then 1 else 0)"
| "ToNumber js (PNum n) = n"
| "ToNumber js (PStr s) = StringToNumber js s"
| "ToNumber js (PArr ss) = StringToNumber js (join_comma ss)"
| "ToNumber js PObj = StringToNumber js ''[object Object]''"

section \<open>Query planner and the backend adapter\<close>

datatype jsval = JNull | JBool bool | JNum jsnum | JStr string | JDate timestamp | JList "jsval list"

type_synonym entity = "string \<rightharpoonup> jsval"

datatype condition = IsNull string | Cmp FilterOperator string jsval | SqlConst bool

datatype ordering = Asc string | Desc string

text \<open>\<open>QueryParams\<close>: an absent key is \<open>None\<close>; \<open>qp_rest\<close> holds the other keys.\<close>

record QueryParams =
  qp_page :: "qparam option"
  qp_limit :: "qparam option"
  qp_sort :: "string option"
  qp_select :: "string option"
  qp_deleted :: "qparam option"
  qp_rest :: "(string \<times> jsval) list"

record QueryResult =
  records :: "entity list"
  record_count :: nat

record select_query =
  q_fields :: "string list option"
  q_where :: "condition list"
  q_orderBy :: "ordering list"
  q_limit :: "jsnum option"
  q_offset :: "jsnum option"

text \<open>
  \<open>DatabaseAdapter\<close>: what the backend answers in its state \<open>'s\<close>. A call that
  throws answers \<open>Inl\<close> with the error; the writes return the state afterwards.
\<close>

type_synonym backend_error = string

record 's database =
  db_select :: "select_query \<Rightarrow> 's \<Rightarrow> backend_error + entity list"
  db_count :: "condition list \<Rightarrow> 's \<Rightarrow> backend_error + nat"
  db_insert :: "entity list \<Rightarrow> 's \<Rightarrow> (backend_error + entity list) \<times> 's"
  db_update :: "entity \<Rightarrow> condition list \<Rightarrow> 's \<Rightarrow> (backend_error + entity list) \<times> 's"

text \<open>\<open>FilterOp.buildCondition\<close>; only \<open>in\<close> changes the value, wrapping a scalar.\<close>

definition buildCondition :: "jsval Filter \<Rightarrow> condition" where
  "buildCondition f =
     (if operator f = OpIn
      then Cmp OpIn (field f) (case fvalue f of JList vs \<Rightarrow> JList vs | v \<Rightarrow> JList [v])
      else Cmp (operator f) (field f) (fvalue f))"

text \<open>
  The table is the list of its column names: \<open>this.table[field]\<close> is truthy when the
  column is declared. \<open>GenericCrudEngine\<close> tests for \<open>deleted_at\<close> and \<open>created_at\<close>;
  \<open>CrudHandler\<close> takes both for granted.
\<close>

definition buildWhereClause :: "string list \<Rightarrow> jsval Filter list \<Rightarrow> bool \<Rightarrow> condition list" where
  "buildWhereClause cols filters includeDeleted =
     (if \<not> includeDeleted \<and> ''deleted_at'' \<in> set cols then [IsNull ''deleted_at''] else [])
     @ map buildCondition (filter (\<lambda>f. field f \<in> set cols) filters)"

definition CrudHandler_buildWhereClause ::
  "string list \<Rightarrow> jsval Filter list \<Rightarrow> bool \<Rightarrow> condition list" where
  "CrudHandler_buildWhereClause cols filters includeDeleted =
     (if \<not> includeDeleted then [IsNull ''deleted_at''] else [])
     @ map buildCondition (filter (\<lambda>f. field f \<in> set cols) filters)"

text \<open>\<open>sortParam.split(',')\<close>: the pieces between the commas, one piece for the empty string.\<close>

fun split_comma :: "string \<Rightarrow> string list" where
  "split_comma [] = [[]]"
| "split_comma (c # cs) =
     (if c = CHR '','' then [] # split_comma cs
      else (case split_comma cs of [] \<Rightarrow> [[c]] | w # ws \<Rightarrow> (c # w) # ws))"

text \<open>\<open>trim()\<close>, on ASCII white space.\<close>

definition is_space :: "char \<Rightarrow> bool" where
  "is_space c = (c \<in> set [CHR '' '', CHR 0x09, CHR 0x0A, CHR 0x0B, CHR 0x0C, CHR 0x0D])"

definition trim :: "string \<Rightarrow> string" where
  "trim s = rev (dropWhile is_space (rev (dropWhile is_space s)))"

definition sort_term :: "string list \<Rightarrow> string \<Rightarrow> ordering list" where
  "sort_term cols s =
     (let fld = trim s in
      if take 5 fld = ''desc_''
      then (if drop 5 fld \<in> set cols then [Desc (drop 5 fld)] else [])
      else (if fld \<in> set cols then [Asc fld] else []))"

definition buildOrderBy :: "string list \<Rightarrow> string option \<Rightarrow> ordering list" where
  "buildOrderBy cols sortParam =
     (let dflt = (if ''created_at'' \<in> set cols then [Desc ''created_at''] else []) in
      case sortParam of
        None \<Rightarrow> dflt
      | Some s \<Rightarrow>
          if s = [] then dflt
          else (let orderBy = concat (map (sort_term cols) (split_comma s))
                in if orderBy \<noteq> [] then orderBy else dflt))"

definition CrudHandler_buildOrderBy :: "string list \<Rightarrow> string option \<Rightarrow> ordering list" where
  "CrudHandler_buildOrderBy cols sortParam =
     (case sortParam of
        None \<Rightarrow> [Desc ''created_at'']
      | Some s \<Rightarrow>
          if s = [] then [Desc ''created_at'']
          else (let orderBy = concat (map (sort_term cols) (split_comma s))
                in if orderBy \<noteq> [] then orderBy else [Desc ''created_at'']))"

definition buildSelect :: "string list \<Rightarrow> string option \<Rightarrow> string list option" where
  "buildSelect cols selectParam =
     (case selectParam of
        None \<Rightarrow> None
      | Some s \<Rightarrow>
          if s = [] then None
          else (let sel = rev (remdups (rev (filter (\<lambda>f. f \<in> set cols) (map trim (split_comma s)))))
                in if sel \<noteq> [] then Some sel else None))"

text \<open>
  \<open>params.page || 1\<close> and \<open>params.limit || 10\<close>: the parameter when it is truthy,
  the default when it is absent or falsy.
\<close>

definition or_default :: "qparam option \<Rightarrow> real \<Rightarrow> qparam" where
  "or_default p d =
     (case p of None \<Rightarrow> PNum (Finite d) | Some v \<Rightarrow> if truthy v then v else PNum (Finite d))"

definition effective_page :: "js_env \<Rightarrow> QueryParams \<Rightarrow> jsnum" where
  "effective_page js params = Math_max (Finite 1) (ToNumber js (or_default (qp_page params) 1))"

definition effective_limit :: "js_env \<Rightarrow> QueryParams \<Rightarrow> jsnum" where
  "effective_limit js params =
     Math_min (Finite 100) (Math_max (Finite 1) (ToNumber js (or_default (qp_limit params) 10)))"

definition effective_offset :: "js_env \<Rightarrow> QueryParams \<Rightarrow> jsnum" where
  "effective_offset js params =
     js_mul js (js_sub js (effective_page js params) (Finite 1)) (effective_limit js params)"

text \<open>\<open>params.deleted === true\<close>.\<close>

definition includeDeleted :: "QueryParams \<Rightarrow> bool" where
  "includeDeleted params = (qp_deleted params = Some (PBool True))"

section \<open>GenericCrudEngine (lib/core/crud-engine.ts)\<close>

definition active_by_id :: "string list \<Rightarrow> string \<Rightarrow> condition list" where
  "active_by_id cols i =
     [Cmp OpEq ''id'' (JStr i),
      if ''deleted_at'' \<in> set cols then IsNull ''deleted_at'' else SqlConst True]"

text \<open>\<open>select(table).where(and(...)).limit(1)\<close>, as \<open>update\<close> looks its parent up.\<close>

definition select_first :: "condition list \<Rightarrow> select_query" where
  "select_first conds =
     \<lparr> q_fields = None, q_where = conds, q_orderBy = [], q_limit = Some (Finite 1),
       q_offset = None \<rparr>"

text \<open>The query \<open>findMany\<close> sends; the engine always selects the whole table.\<close>

definition GenericCrudEngine_findMany_query ::
  "js_env \<Rightarrow> string list \<Rightarrow> QueryParams \<Rightarrow> select_query" where
  "GenericCrudEngine_findMany_query js cols params =
     \<lparr> q_fields = None,
       q_where = buildWhereClause cols (lib_fromQueryParams (qp_rest params))
                   (includeDeleted params),
       q_orderBy = buildOrderBy cols (qp_sort params),
       q_limit = Some (effective_limit js params),
       q_offset = Some (effective_offset js params) \<rparr>"

definition GenericCrudEngine_findMany ::
  "js_env \<Rightarrow> 's database \<Rightarrow> string list \<Rightarrow> QueryParams \<Rightarrow> 's \<Rightarrow> QueryResult" where
  "GenericCrudEngine_findMany js db cols params s =
     (let query = GenericCrudEngine_findMany_query js cols params in
      case (db_select db query s, db_count db (q_where query) s) of
        (Inr rows, Inr cnt) \<Rightarrow> \<lparr> records = rows, record_count = cnt \<rparr>
      | _ \<Rightarrow> \<lparr> records = [], record_count = 0 \<rparr>)"

definition GenericCrudEngine_count ::
  "'s database \<Rightarrow> string list \<Rightarrow> QueryParams \<Rightarrow> 's \<Rightarrow> backend_error + nat" where
  "GenericCrudEngine_count db cols params s =
     db_count db (buildWhereClause cols (lib_fromQueryParams (qp_rest params))
                    (includeDeleted params)) s"

definition GenericCrudEngine_create ::
  "'s database \<Rightarrow> entity \<Rightarrow> string \<Rightarrow> timestamp \<Rightarrow> 's \<Rightarrow> (backend_error + entity option) \<times> 's" where
  "GenericCrudEngine_create db dat newId now s =
     (case db_insert db [dat(''id'' \<mapsto> JStr newId, ''created_at'' \<mapsto> JDate now)] s of
        (Inl e, s') \<Rightarrow> (Inl e, s')
      | (Inr result, s') \<Rightarrow> (Inr (first_or_null result), s'))"

text \<open>The row \<open>update\<close> inserts: the patch, a new id, the parent's creation time.\<close>

definition GenericCrudEngine_newRecordData ::
  "entity \<Rightarrow> entity \<Rightarrow> string \<Rightarrow> timestamp \<Rightarrow> entity" where
  "GenericCrudEngine_newRecordData parent dat newId now =
     dat(''id'' \<mapsto> JStr newId, ''created_at'' := parent ''created_at'',
         ''updated_at'' \<mapsto> JDate now)"

definition GenericCrudEngine_update ::
  "'s database \<Rightarrow> string list \<Rightarrow> string \<Rightarrow> entity \<Rightarrow> string \<Rightarrow> timestamp \<Rightarrow> 's
     \<Rightarrow> (backend_error + entity option) \<times> 's" where
  "GenericCrudEngine_update db cols i dat newId now s =
     (case db_select db (select_first (active_by_id cols i)) s of
        Inl e \<Rightarrow> (Inl e, s)
      | Inr [] \<Rightarrow> (Inr None, s)
      | Inr (parent # _) \<Rightarrow>
          (case db_insert db [GenericCrudEngine_newRecordData parent dat newId now] s of
             (Inl e, s') \<Rightarrow> (Inl e, s')
           | (Inr result, s') \<Rightarrow> (Inr (first_or_null result), s')))"

definition GenericCrudEngine_delete ::
  "'s database \<Rightarrow> string list \<Rightarrow> string \<Rightarrow> timestamp \<Rightarrow> 's \<Rightarrow> bool \<times> 's" where
  "GenericCrudEngine_delete db cols i now s =
     (case db_update db [''deleted_at'' \<mapsto> JDate now] (active_by_id cols i) s of
        (Inl e, s') \<Rightarrow> (False, s')
      | (Inr result, s') \<Rightarrow> (0 < length result, s'))"

text \<open>
  \<open>bulkCreate\<close> calls the id generator and the clock once per item: \<open>newId k\<close> and
  \<open>now k\<close> are their values for the item at index \<open>k\<close>.
\<close>

definition GenericCrudEngine_newRecords ::
  "entity list \<Rightarrow> (nat \<Rightarrow> string) \<Rightarrow> (nat \<Rightarrow> timestamp) \<Rightarrow> entity list" where
  "GenericCrudEngine_newRecords items newId now =
     map (\<lambda>(k, item). item(''id'' \<mapsto> JStr (newId k), ''created_at'' \<mapsto> JDate (now k)))
       (enumerate 0 items)"

definition GenericCrudEngine_bulkCreate ::
  "'s database \<Rightarrow> entity list \<Rightarrow> (nat \<Rightarrow> string) \<Rightarrow> (nat \<Rightarrow> timestamp) \<Rightarrow> 's
     \<Rightarrow> (backend_error + entity list) \<times> 's" where
  "GenericCrudEngine_bulkCreate db items newId now s =
     db_insert db (GenericCrudEngine_newRecords items newId now) s"

section \<open>CrudHandler (src/core/crud-engine.ts)\<close>

definition CrudHandler_active_by_id :: "string \<Rightarrow> condition list" where
  "CrudHandler_active_by_id i = [Cmp OpEq ''id'' (JStr i), IsNull ''deleted_at'']"

definition CrudHandler_findMany_query ::
  "js_env \<Rightarrow> string list \<Rightarrow> QueryParams \<Rightarrow> select_query" where
  "CrudHandler_findMany_query js cols params =
     \<lparr> q_fields = buildSelect cols (qp_select params),
       q_where = CrudHandler_buildWhereClause cols (fromQueryParams (qp_rest params))
                   (includeDeleted params),
       q_orderBy = CrudHandler_buildOrderBy cols (qp_sort params),
       q_limit = Some (effective_limit js params),
       q_offset = Some (effective_offset js params) \<rparr>"

definition CrudHandler_findMany ::
  "js_env \<Rightarrow> 's database \<Rightarrow> string list \<Rightarrow> QueryParams \<Rightarrow> 's \<Rightarrow> QueryResult" where
  "CrudHandler_findMany js db cols params s =
     (let query = CrudHandler_findMany_query js cols params in
      case (db_select db query s, db_count db (q_where query) s) of
        (Inr rows, Inr cnt) \<Rightarrow> \<lparr> records = rows, record_count = cnt \<rparr>
      | _ \<Rightarrow> \<lparr> records = [], record_count = 0 \<rparr>)"

definition CrudHandler_count ::
  "'s database \<Rightarrow> string list \<Rightarrow> QueryParams \<Rightarrow> 's \<Rightarrow> backend_error + nat" where
  "CrudHandler_count db cols params s =
     db_count db (CrudHandler_buildWhereClause cols (fromQueryParams (qp_rest params))
                    (includeDeleted params)) s"

definition CrudHandler_create ::
  "'s database \<Rightarrow> entity \<Rightarrow> string \<Rightarrow> 's \<Rightarrow> (backend_error + entity option) \<times> 's" where
  "CrudHandler_create db dat newId s =
     (case db_insert db [dat(''id'' \<mapsto> JStr newId)] s of
        (Inl e, s') \<Rightarrow> (Inl e, s')
      | (Inr result, s') \<Rightarrow> (Inr (first_or_null result), s'))"

definition CrudHandler_newRecordData :: "entity \<Rightarrow> entity \<Rightarrow> timestamp \<Rightarrow> entity" where
  "CrudHandler_newRecordData parent dat now =
     dat(''created_at'' := parent ''created_at'', ''updated_at'' \<mapsto> JDate now)"

definition CrudHandler_update ::
  "'s database \<Rightarrow> string \<Rightarrow> entity \<Rightarrow> timestamp \<Rightarrow> 's \<Rightarrow> (backend_error + entity option) \<times> 's" where
  "CrudHandler_update db i dat now s =
     (case db_select db (select_first (CrudHandler_active_by_id i)) s of
        Inl e \<Rightarrow> (Inl e, s)
      | Inr [] \<Rightarrow> (Inr None, s)
      | Inr (parent # _) \<Rightarrow>
          (case db_insert db [CrudHandler_newRecordData parent dat now] s of
             (Inl e, s') \<Rightarrow> (Inl e, s')
           | (Inr result, s') \<Rightarrow> (Inr (first_or_null result), s')))"

definition CrudHandler_delete :: "'s database \<Rightarrow> string \<Rightarrow> timestamp \<Rightarrow> 's \<Rightarrow> bool \<times> 's" where
  "CrudHandler_delete db i now s =
     (case db_update db [''deleted_at'' \<mapsto> JDate now] (CrudHandler_active_by_id i) s of
        (Inl e, s') \<Rightarrow> (False, s')
      | (Inr result, s') \<Rightarrow> (0 < length result, s'))"

definition CrudHandler_newRecords :: "entity list \<Rightarrow> (nat \<Rightarrow> string) \<Rightarrow> entity list" where
  "CrudHandler_newRecords items newId =
     map (\<lambda>(k, item). item(''id'' \<mapsto> JStr (newId k))) (enumerate 0 items)"

definition CrudHandler_bulkCreate ::
  "'s database \<Rightarrow> entity list \<Rightarrow> (nat \<Rightarrow> string) \<Rightarrow> 's \<Rightarrow> (backend_error + entity list) \<times> 's" where
  "CrudHandler_bulkCreate db items newId s = db_insert db (CrudHandler_newRecords items newId) s"

section \<open>The clamp of the specification\<close>

text \<open>\<open>clamp(L, 1, 100)\<close>, as the specification writes it.\<close>

definition clamp :: "real \<Rightarrow> real \<Rightarrow> real \<Rightarrow> real" where
  "clamp x lo hi = max lo (min hi x)"

section \<open>Example data\<close>

text \<open>An entity of workspace 1 as created, and its second version.\<close>

definition row_v1 :: "int BaseRecord" where
  "row_v1 = \<lparr> rowId = ''r1'', workspaceId = 1, entityId = ''e1'', name = ''A'',
              data = [''x'' \<mapsto> 1], createdAt = 10, updatedAt = 10, deletedAt = None \<rparr>"

definition row_v2 :: "int BaseRecord" where
  "row_v2 = \<lparr> rowId = ''r2'', workspaceId = 1, entityId = ''e1'', name = ''A'',
              data = [''x'' \<mapsto> 1, ''y'' \<mapsto> 2], createdAt = 10, updatedAt = 20, deletedAt = None \<rparr>"

text \<open>A backend that refuses every call, and one that holds no row.\<close>

definition failing_db :: "unit database" where
  "failing_db =
     \<lparr> db_select = (\<lambda>q s. Inl ''connection refused''),
       db_count = (\<lambda>c s. Inl ''connection refused''),
       db_insert = (\<lambda>rows s. (Inl ''connection refused'', s)),
       db_update = (\<lambda>v c s. (Inl ''connection refused'', s)) \<rparr>"

definition empty_db :: "unit database" where
  "empty_db =
     \<lparr> db_select = (\<lambda>q s. Inr []),
       db_count = (\<lambda>c s. Inr 0),
       db_insert = (\<lambda>rows s. (Inr rows, s)),
       db_update = (\<lambda>v c s. (Inr [], s)) \<rparr>"

text \<open>
  A backend that holds one row and rejects every row offered to it (a constraint
  violation): reads succeed, only the insert fails.
\<close>

definition rejecting_db :: "unit database" where
  "rejecting_db =
     \<lparr> db_select = (\<lambda>q s. Inr [[''id'' \<mapsto> JStr ''u1'', ''created_at'' \<mapsto> JDate 1]]),
       db_count = (\<lambda>c s. Inr 1),
       db_insert = (\<lambda>rows s. (Inl ''constraint violation'', s)),
       db_update = (\<lambda>v c s. (Inr [], s)) \<rparr>"

definition no_params :: QueryParams where
  "no_params = \<lparr> qp_page = None, qp_limit = None, qp_sort = None, qp_select = None,
                  qp_deleted = None, qp_rest = [] \<rparr>"

definition users_cols :: "string list" where
  "users_cols = [''wid'', ''id'', ''name'', ''data'', ''created_at'', ''deleted_at'']"

text \<open>
  An environment for the examples: it reads a string of decimal digits as its
  number, as JavaScript does, and its arithmetic is exact. No other string is
  converted below.
\<close>

fun digits_value :: "string \<Rightarrow> nat \<Rightarrow> nat option" where
  "digits_value [] acc = Some acc"
| "digits_value (c # cs) acc =
     (if (48::nat) \<le> of_char c \<and> (of_char c :: nat) \<le> 57
      then digits_value cs (10 * acc + (of_char c - 48))
      else None)"

definition example_js :: js_env where
  "example_js =
     \<lparr> StringToNumber = (\<lambda>s. case digits_value s 0 of
                                 Some n \<Rightarrow> Finite (of_nat n)
                               | None \<Rightarrow> NaN),
       round_double = Finite \<rparr>"

section \<open>Resolution of the current version\<close>

lemma set_select_where_orderBy:
  "set (select_where_orderBy tbl w cs) =
     {r \<in> set tbl. workspaceId r = w \<and> deletedAt r = None \<and> list_all (\<lambda>c. c r) cs}"
  by (auto simp: select_where_orderBy_def orderBy_desc_def)

lemma sorted_select_where_orderBy:
  "sorted (map (\<lambda>r. - updatedAt r) (select_where_orderBy tbl w cs))"
  by (simp add: select_where_orderBy_def orderBy_desc_def)

lemma find_in_sorted_least:
  "sorted (map g ys) \<Longrightarrow> find P ys = Some r \<Longrightarrow> r' \<in> set ys \<Longrightarrow> P r' \<Longrightarrow> g r \<le> g r'"
  by (induction ys) (auto split: if_splits)

lemma find_SomeD: "find P ys = Some r \<Longrightarrow> r \<in> set ys \<and> P r"
  by (induction ys) (auto split: if_splits)

lemma distinct_latest_step:
  "distinct (map fst m) \<Longrightarrow> distinct (map fst (latest_step m r))"
  by (simp add: latest_step_def distinct_update split: option.splits)

lemma distinct_foldl_latest_step:
  "distinct (map fst m) \<Longrightarrow> distinct (map fst (foldl latest_step m xs))"
  by (induction xs arbitrary: m) (simp_all add: distinct_latest_step)

lemma keys_latest_step:
  "fst ` set (latest_step m r) = insert (entityId r) (fst ` set m)"
proof (cases "map_of m (entityId r)")
  case None
  then show ?thesis by (simp add: latest_step_def dom_update)
next
  case (Some e)
  then have "entityId r \<in> fst ` set m" by (metis map_of_eq_None_iff option.distinct(1))
  with Some show ?thesis by (auto simp: latest_step_def dom_update)
qed

lemma keys_foldl_latest_step:
  "fst ` set (foldl latest_step m xs) = fst ` set m \<union> entityId ` set xs"
  by (induction xs arbitrary: m) (auto simp: keys_latest_step)

lemma set_AList_update_subset: "set (AList.update k v al) \<subseteq> insert (k, v) (set al)"
  by (induction al) auto

lemma entries_latest_step:
  "(k, e) \<in> set (latest_step m r) \<Longrightarrow> (k, e) \<in> set m \<or> (e = r \<and> k = entityId r)"
  using set_AList_update_subset [of "entityId r" r m]
  by (auto simp: latest_step_def split: option.splits if_splits)

lemma entries_foldl_latest_step:
  "(k, e) \<in> set (foldl latest_step m xs) \<Longrightarrow>
     (k, e) \<in> set m \<or> (e \<in> set xs \<and> entityId e = k)"
proof (induction xs arbitrary: m)
  case Nil
  then show ?case by simp
next
  case (Cons x xs)
  from Cons.IH [of "latest_step m x"] Cons.prems
  have "(k, e) \<in> set (latest_step m x) \<or> (e \<in> set xs \<and> entityId e = k)" by simp
  then show ?case using entries_latest_step [of k e m x] by auto
qed

lemma map_of_foldl_latest_step:
  assumes "\<forall>r\<in>set xs. \<forall>r'\<in>set xs. entityId r = entityId r' \<longrightarrow> createdAt r = createdAt r'"
    and "\<forall>k e. map_of m k = Some e \<longrightarrow> (\<forall>r\<in>set xs. entityId r = k \<longrightarrow> createdAt r \<le> createdAt e)"
  shows "map_of (foldl latest_step m xs) k =
           (case map_of m k of Some e \<Rightarrow> Some e | None \<Rightarrow> find (\<lambda>r. entityId r = k) xs)"
  using assms
proof (induction xs arbitrary: m)
  case Nil
  then show ?case by (simp split: option.splits)
next
  case (Cons x xs)
  have same: "\<forall>r\<in>set xs. \<forall>r'\<in>set xs. entityId r = entityId r' \<longrightarrow> createdAt r = createdAt r'"
    using Cons.prems(1) by (meson list.set_intros(2))
  have x_same: "createdAt r = createdAt x" if "r \<in> set xs" "entityId r = entityId x" for r
    using Cons.prems(1) that by (meson list.set_intros)
  have m_bound: "createdAt r \<le> createdAt e"
    if "map_of m j = Some e" "r \<in> set xs" "entityId r = j" for j e r
  proof -
    from Cons.prems(2) that(1)
    have "\<forall>r\<in>set (x # xs). entityId r = j \<longrightarrow> createdAt r \<le> createdAt e" by blast
    with that(2,3) show ?thesis by simp
  qed
  have m_x: "createdAt x \<le> createdAt e" if "map_of m (entityId x) = Some e" for e
  proof -
    from Cons.prems(2) that
    have "\<forall>r\<in>set (x # xs). entityId r = entityId x \<longrightarrow> createdAt r \<le> createdAt e" by blast
    then show ?thesis by simp
  qed
  show ?case
  proof (cases "map_of m (entityId x)")
    case None
    then have step: "latest_step m x = AList.update (entityId x) x m"
      by (simp add: latest_step_def)
    have bound: "\<forall>j e. map_of (latest_step m x) j = Some e \<longrightarrow>
                   (\<forall>r\<in>set xs. entityId r = j \<longrightarrow> createdAt r \<le> createdAt e)"
    proof (intro allI impI ballI)
      fix j e r
      assume a: "map_of (latest_step m x) j = Some e" and r: "r \<in> set xs" "entityId r = j"
      show "createdAt r \<le> createdAt e"
      proof (cases "j = entityId x")
        case True
        with a have "e = x" by (simp add: step update_conv')
        moreover have "createdAt r = createdAt x" using x_same r True by blast
        ultimately show ?thesis by (simp only: order_refl)
      next
        case False
        with a have "map_of m j = Some e" by (simp add: step update_conv')
        then show ?thesis using m_bound r by blast
      qed
    qed
    have ih: "map_of (foldl latest_step (latest_step m x) xs) k =
           (case map_of (latest_step m x) k of Some e \<Rightarrow> Some e
            | None \<Rightarrow> find (\<lambda>r. entityId r = k) xs)"
      by (rule Cons.IH [OF same bound])
    show ?thesis
    proof (cases "k = entityId x")
      case True
      with None ih show ?thesis by (simp add: step update_conv')
    next
      case False
      then have "entityId x \<noteq> k" by blast
      with False ih show ?thesis by (simp add: step update_conv' split: option.splits)
    qed
  next
    case (Some e)
    then have "createdAt x \<le> createdAt e" by (rule m_x)
    with Some have step: "latest_step m x = m" by (simp add: latest_step_def)
    have bound: "\<forall>j e. map_of m j = Some e \<longrightarrow>
                   (\<forall>r\<in>set xs. entityId r = j \<longrightarrow> createdAt r \<le> createdAt e)"
      using m_bound by blast
    have ih: "map_of (foldl latest_step m xs) k =
           (case map_of m k of Some e \<Rightarrow> Some e | None \<Rightarrow> find (\<lambda>r. entityId r = k) xs)"
      by (rule Cons.IH [OF same bound])
    show ?thesis
    proof (cases "k = entityId x")
      case True
      with Some ih show ?thesis by (simp add: step)
    next
      case False
      then have "entityId x \<noteq> k" by blast
      with ih show ?thesis by (simp add: step split: option.splits)
    qed
  qed
qed

lemma getLatestRecords_Inr_iff:
  "getLatestRecords tbl w cs = Inr rs \<longleftrightarrow> int32_ok w \<and> rs = select_where_orderBy tbl w cs"
  by (auto simp: getLatestRecords_def)

lemma getAll_Inr_iff:
  "CrudOperations_getAll tbl w = Inr rs \<longleftrightarrow>
     int32_ok w \<and> rs = map snd (foldl latest_step [] (select_where_orderBy tbl w []))"
  by (auto simp: CrudOperations_getAll_def getLatestRecords_def)

lemma getAll_entries:
  assumes "(k, e) \<in> set (foldl latest_step [] (select_where_orderBy tbl w []))"
  shows "entityId e = k \<and> e \<in> set tbl \<and> workspaceId e = w \<and> deletedAt e = None"
  using entries_foldl_latest_step [OF assms] by (simp add: set_select_where_orderBy)

lemma getAll_ids:
  assumes "CrudOperations_getAll tbl w = Inr rs"
  shows "map entityId rs = map fst (foldl latest_step [] (select_where_orderBy tbl w []))"
proof -
  have "entityId (snd p) = fst p"
    if "p \<in> set (foldl latest_step [] (select_where_orderBy tbl w []))" for p
    using getAll_entries [of "fst p" "snd p" tbl w] that by simp
  then show ?thesis using assms by (simp add: getAll_Inr_iff)
qed

lemma getAll_distinct:
  "CrudOperations_getAll tbl w = Inr rs \<Longrightarrow> distinct (map entityId rs)"
  by (simp add: getAll_ids distinct_foldl_latest_step)

lemma getAll_covers:
  "CrudOperations_getAll tbl w = Inr rs \<Longrightarrow>
     set (map entityId rs) = entityId ` {r \<in> set tbl. workspaceId r = w \<and> deletedAt r = None}"
  by (simp add: getAll_ids keys_foldl_latest_step set_select_where_orderBy)

lemma getAll_member:
  assumes "CrudOperations_getAll tbl w = Inr rs" and "r \<in> set rs"
  shows "r \<in> set tbl \<and> workspaceId r = w \<and> deletedAt r = None"
proof -
  from assms obtain k where "(k, r) \<in> set (foldl latest_step [] (select_where_orderBy tbl w []))"
    by (auto simp: getAll_Inr_iff)
  then show ?thesis using getAll_entries by blast
qed

lemma getAll_greatest:
  assumes cons: "createdAt_consistent tbl w"
    and rs: "CrudOperations_getAll tbl w = Inr rs"
    and r: "r \<in> set rs"
    and r': "r' \<in> set tbl" "workspaceId r' = w" "deletedAt r' = None" "entityId r' = entityId r"
  shows "updatedAt r' \<le> updatedAt r"
proof -
  let ?xs = "select_where_orderBy tbl w []"
  let ?m = "foldl latest_step [] ?xs"
  from rs r obtain k where kr: "(k, r) \<in> set ?m"
    by (auto simp: getAll_Inr_iff)
  then have k: "k = entityId r" using getAll_entries by blast
  have "distinct (map fst ?m)" by (simp add: distinct_foldl_latest_step)
  with kr have "map_of ?m k = Some r" by simp
  moreover have "\<forall>a\<in>set ?xs. \<forall>b\<in>set ?xs. entityId a = entityId b \<longrightarrow> createdAt a = createdAt b"
    using cons by (auto simp: createdAt_consistent_def set_select_where_orderBy)
  then have "map_of ?m k =
      (case map_of [] k of Some e \<Rightarrow> Some e | None \<Rightarrow> find (\<lambda>a. entityId a = k) ?xs)"
    by (rule map_of_foldl_latest_step) simp
  then have "map_of ?m k = find (\<lambda>a. entityId a = k) ?xs" by simp
  ultimately have f: "find (\<lambda>a. entityId a = k) ?xs = Some r" by simp
  have "r' \<in> set ?xs" using r' by (simp add: set_select_where_orderBy)
  from find_in_sorted_least [OF sorted_select_where_orderBy f this] r' k
  show ?thesis by simp
qed

lemma getLatestRecordById_Inr_iff:
  "getLatestRecordById tbl w i = Inr x \<longleftrightarrow>
     int32_ok w \<and> x = first_or_null (select_where_orderBy tbl w [\<lambda>r. entityId r = i])"
  by (auto simp: getLatestRecordById_def getLatestRecords_def)

lemma getLatestRecordById_SomeD:
  assumes "getLatestRecordById tbl w i = Inr (Some r)"
  shows "r \<in> set tbl \<and> workspaceId r = w \<and> entityId r = i \<and> deletedAt r = None \<and> int32_ok w"
proof -
  from assms have ok: "int32_ok w"
    and "first_or_null (select_where_orderBy tbl w [\<lambda>r. entityId r = i]) = Some r"
    by (simp_all add: getLatestRecordById_Inr_iff)
  then obtain rs where "select_where_orderBy tbl w [\<lambda>r. entityId r = i] = r # rs"
    by (auto simp: first_or_null_def split: list.splits)
  then have "r \<in> set (select_where_orderBy tbl w [\<lambda>r. entityId r = i])" by simp
  then show ?thesis using ok by (simp add: set_select_where_orderBy)
qed

lemma getLatestRecordById_None_iff:
  "getLatestRecordById tbl w i = Inr None \<longleftrightarrow>
     int32_ok w \<and> (\<forall>r\<in>set tbl. \<not> (workspaceId r = w \<and> deletedAt r = None \<and> entityId r = i))"
proof -
  have "first_or_null (select_where_orderBy tbl w [\<lambda>r. entityId r = i]) = None
          \<longleftrightarrow> set (select_where_orderBy tbl w [\<lambda>r. entityId r = i]) = {}"
    by (simp add: first_or_null_def split: list.splits)
  then show ?thesis
    unfolding getLatestRecordById_Inr_iff by (auto simp: set_select_where_orderBy)
qed


text \<open>
  The row \<open>update\<close> writes, and when the backend takes it: the resolved version
  \<open>prev\<close>, a row id not in the table, and a row within the columns.
\<close>

lemma update_found:
  assumes "getLatestRecordById tbl w i = Inr (Some prev)"
  shows "CrudOperations_update tbl w i upd newRowId now =
           (case insert_values tbl
                   \<lparr> rowId = newRowId, workspaceId = workspaceId prev, entityId = entityId prev,
                     name = name_or (u_name upd) (name prev),
                     data = merge_data (data prev) (u_data upd),
                     createdAt = createdAt prev, updatedAt = now, deletedAt = None \<rparr> of
              (Inl e, t) \<Rightarrow> (Inl e, t)
            | (Inr result, t) \<Rightarrow> (Inr (first_or_null result), t))"
  using assms by (simp add: CrudOperations_update_def Let_def)

lemma insert_values_cases:
  "insert_values tbl r = (Inr [r], tbl @ [r]) \<and> rowId r \<notin> set (map rowId tbl) \<and> column_ok r
   \<or> insert_values tbl r = (Inl BackendFailure, tbl)
      \<and> (rowId r \<in> set (map rowId tbl) \<or> \<not> column_ok r)"
  by (simp add: insert_values_def)

lemma update_returns_row:
  assumes prev: "getLatestRecordById tbl w i = Inr (Some prev)"
    and ret: "CrudOperations_update tbl w i upd newRowId now = (Inr (Some r), tbl')"
  shows "r = \<lparr> rowId = newRowId, workspaceId = workspaceId prev, entityId = entityId prev,
               name = name_or (u_name upd) (name prev),
               data = merge_data (data prev) (u_data upd),
               createdAt = createdAt prev, updatedAt = now, deletedAt = None \<rparr>
         \<and> tbl' = tbl @ [r] \<and> newRowId \<notin> set (map rowId tbl) \<and> column_ok r"
proof -
  let ?n = "\<lparr> rowId = newRowId, workspaceId = workspaceId prev, entityId = entityId prev,
               name = name_or (u_name upd) (name prev),
               data = merge_data (data prev) (u_data upd),
               createdAt = createdAt prev, updatedAt = now, deletedAt = None \<rparr>"
  from insert_values_cases [of tbl ?n] ret show ?thesis
    unfolding update_found [OF prev]
    by (auto simp: first_or_null_def)
qed

lemma update_succeeds:
  assumes prev: "getLatestRecordById tbl w i = Inr (Some prev)"
    and fresh: "newRowId \<notin> set (map rowId tbl)"
    and fits: "column_ok prev" "length (name_or (u_name upd) (name prev)) \<le> 255"
  shows "\<exists>r. CrudOperations_update tbl w i upd newRowId now = (Inr (Some r), tbl @ [r])"
  unfolding update_found [OF prev] using fresh fits
  by (simp add: insert_values_def column_ok_def first_or_null_def)

lemma update_failure_writes_nothing:
  assumes "CrudOperations_update tbl w i upd newRowId now = (Inl e, tbl')"
  shows "tbl' = tbl"
  using assms
  by (auto simp: CrudOperations_update_def insert_values_def Let_def
        split: sum.splits option.splits if_splits)

section \<open>What the operations write\<close>

lemma insert_values_snd:
  "snd (insert_values tbl r) = tbl
   \<or> snd (insert_values tbl r) = tbl @ [r] \<and> rowId r \<notin> set (map rowId tbl) \<and> column_ok r"
  by (simp add: insert_values_def)

lemma create_snd:
  "snd (CrudOperations_create tbl recordData newEntityId newRowId now) =
     snd (insert_values tbl
            \<lparr> rowId = newRowId, workspaceId = c_workspaceId recordData, entityId = newEntityId,
              name = c_name recordData,
              data = (case c_data recordData of Defined d \<Rightarrow> d | _ \<Rightarrow> Map.empty),
              createdAt = now, updatedAt = now, deletedAt = None \<rparr>)"
  by (simp add: CrudOperations_create_def Let_def split: prod.splits sum.splits)

lemma update_snd:
  "snd (CrudOperations_update tbl w i upd newRowId now) = tbl
   \<or> (\<exists>prev. getLatestRecordById tbl w i = Inr (Some prev)
         \<and> snd (CrudOperations_update tbl w i upd newRowId now) =
             snd (insert_values tbl
                    \<lparr> rowId = newRowId, workspaceId = workspaceId prev, entityId = entityId prev,
                      name = name_or (u_name upd) (name prev),
                      data = merge_data (data prev) (u_data upd),
                      createdAt = createdAt prev, updatedAt = now, deletedAt = None \<rparr>))"
proof (cases "getLatestRecordById tbl w i")
  case (Inl e)
  then show ?thesis by (simp add: CrudOperations_update_def)
next
  case (Inr x)
  show ?thesis
  proof (cases x)
    case None
    with Inr show ?thesis by (simp add: CrudOperations_update_def)
  next
    case (Some prev)
    with Inr have p: "getLatestRecordById tbl w i = Inr (Some prev)" by simp
    show ?thesis
      unfolding update_found [OF p] using p
      by (simp split: prod.splits sum.splits)
  qed
qed

lemma delete_snd:
  "snd (CrudOperations_delete tbl w i now) = tbl
   \<or> (\<exists>act. getLatestRecordById tbl w i = Inr (Some act)
         \<and> snd (CrudOperations_delete tbl w i now) =
             map (\<lambda>r. if rowId r = rowId act \<and> deletedAt r = None
                        then r\<lparr>deletedAt := Some now, updatedAt := now\<rparr> else r) tbl)"
  by (cases "getLatestRecordById tbl w i")
     (auto simp: CrudOperations_delete_def update_set_def split: option.splits)

section \<open>Invariants of the tables the engine writes\<close>

lemma createdAt_consistentD:
  assumes "createdAt_consistent tbl w" and "r \<in> set tbl" and "r' \<in> set tbl"
    and "workspaceId r = w" and "workspaceId r' = w" and "deletedAt r = None" and "deletedAt r' = None"
    and "entityId r = entityId r'"
  shows "createdAt r = createdAt r'"
  using assms unfolding createdAt_consistent_def by blast

lemma createdAt_consistent_snoc:
  assumes c: "createdAt_consistent tbl w"
    and n: "\<And>r. r \<in> set tbl \<Longrightarrow> workspaceId r = w \<Longrightarrow> deletedAt r = None \<Longrightarrow>
               workspaceId n = w \<Longrightarrow> entityId r = entityId n \<Longrightarrow> createdAt r = createdAt n"
  shows "createdAt_consistent (tbl @ [n]) w"
  unfolding createdAt_consistent_def
proof (intro ballI impI, elim conjE)
  fix r r'
  assume m: "r \<in> set (tbl @ [n])" "r' \<in> set (tbl @ [n])"
    and a: "workspaceId r = w" "workspaceId r' = w" "deletedAt r = None" "deletedAt r' = None"
      "entityId r = entityId r'"
  from m have "r \<in> set tbl \<or> r = n" and "r' \<in> set tbl \<or> r' = n" by auto
  then consider "r \<in> set tbl" "r' \<in> set tbl" | "r \<in> set tbl" "r' = n"
    | "r = n" "r' \<in> set tbl" | "r = n" "r' = n" by blast
  then show "createdAt r = createdAt r'"
  proof cases
    case 1
    then show ?thesis using createdAt_consistentD [OF c] a by blast
  next
    case 2
    then show ?thesis using n [of r] a by simp
  next
    case 3
    then show ?thesis using n [of r'] a by simp
  next
    case 4
    then show ?thesis by simp
  qed
qed

lemma createdAt_consistent_fewer:
  assumes c: "createdAt_consistent tbl w"
    and sub: "\<And>r. r \<in> set tbl' \<Longrightarrow> deletedAt r = None \<Longrightarrow> r \<in> set tbl"
  shows "createdAt_consistent tbl' w"
  unfolding createdAt_consistent_def
proof (intro ballI impI, elim conjE)
  fix r r'
  assume "r \<in> set tbl'" "r' \<in> set tbl'" "workspaceId r = w" "workspaceId r' = w"
    "deletedAt r = None" "deletedAt r' = None" "entityId r = entityId r'"
  moreover from this have "r \<in> set tbl" "r' \<in> set tbl" using sub by blast+
  ultimately show "createdAt r = createdAt r'" using createdAt_consistentD [OF c] by blast
qed

lemma create_keeps_createdAt_consistent:
  assumes c: "createdAt_consistent tbl w" and fresh: "newEntityId \<notin> entityId ` set tbl"
  shows "createdAt_consistent (snd (CrudOperations_create tbl recordData newEntityId newRowId now)) w"
proof -
  let ?n = "\<lparr> rowId = newRowId, workspaceId = c_workspaceId recordData, entityId = newEntityId,
               name = c_name recordData,
               data = (case c_data recordData of Defined d \<Rightarrow> d | _ \<Rightarrow> Map.empty),
               createdAt = now, updatedAt = now, deletedAt = None \<rparr>"
  have "createdAt_consistent (tbl @ [?n]) w"
  proof (rule createdAt_consistent_snoc [OF c])
    fix r assume "r \<in> set tbl" "entityId r = entityId ?n"
    then have "entityId r = newEntityId" and "entityId r \<in> entityId ` set tbl"
      by (simp, blast)
    with fresh have False by metis
    then show "createdAt r = createdAt ?n" ..
  qed
  with c insert_values_snd [of tbl ?n] show ?thesis
    unfolding create_snd by metis
qed

lemma update_keeps_createdAt_consistent:
  assumes c: "createdAt_consistent tbl w'"
  shows "createdAt_consistent (snd (CrudOperations_update tbl w i upd newRowId now)) w'"
proof -
  from update_snd [of tbl w i upd newRowId now]
  consider "snd (CrudOperations_update tbl w i upd newRowId now) = tbl"
    | prev where "getLatestRecordById tbl w i = Inr (Some prev)"
        "snd (CrudOperations_update tbl w i upd newRowId now) =
           snd (insert_values tbl
                  \<lparr> rowId = newRowId, workspaceId = workspaceId prev, entityId = entityId prev,
                    name = name_or (u_name upd) (name prev),
                    data = merge_data (data prev) (u_data upd),
                    createdAt = createdAt prev, updatedAt = now, deletedAt = None \<rparr>)"
    by blast
  then show ?thesis
  proof cases
    case 1
    with c show ?thesis by simp
  next
    case (2 prev)
    let ?n = "\<lparr> rowId = newRowId, workspaceId = workspaceId prev, entityId = entityId prev,
                 name = name_or (u_name upd) (name prev),
                 data = merge_data (data prev) (u_data upd),
                 createdAt = createdAt prev, updatedAt = now, deletedAt = None \<rparr>"
    from getLatestRecordById_SomeD [OF 2(1)]
    have p: "prev \<in> set tbl" "workspaceId prev = w" "deletedAt prev = None" by simp_all
    have "createdAt_consistent (tbl @ [?n]) w'"
    proof (rule createdAt_consistent_snoc [OF c])
      fix r assume r: "r \<in> set tbl" "workspaceId r = w'" "deletedAt r = None"
        and n: "workspaceId ?n = w'" "entityId r = entityId ?n"
      from n have "workspaceId prev = w'" "entityId r = entityId prev" by simp_all
      with createdAt_consistentD [OF c r(1) p(1)] r p have "createdAt r = createdAt prev" by blast
      then show "createdAt r = createdAt ?n" by simp
    qed
    with c insert_values_snd [of tbl ?n] show ?thesis
      unfolding 2(2) by metis
  qed
qed

lemma delete_keeps_createdAt_consistent:
  assumes c: "createdAt_consistent tbl w'"
  shows "createdAt_consistent (snd (CrudOperations_delete tbl w i now)) w'"
proof -
  have marked: "createdAt_consistent
      (map (\<lambda>r. if rowId r = rowId act \<and> deletedAt r = None
                 then r\<lparr>deletedAt := Some now, updatedAt := now\<rparr> else r) tbl) w'" for act
  proof (rule createdAt_consistent_fewer [OF c])
    fix r
    assume "r \<in> set (map (\<lambda>r. if rowId r = rowId act \<and> deletedAt r = None
                 then r\<lparr>deletedAt := Some now, updatedAt := now\<rparr> else r) tbl)"
      and live: "deletedAt r = None"
    then obtain r0 where r0: "r0 \<in> set tbl"
      "r = (if rowId r0 = rowId act \<and> deletedAt r0 = None
            then r0\<lparr>deletedAt := Some now, updatedAt := now\<rparr> else r0)" by auto
    with live have "r = r0" by (cases "rowId r0 = rowId act \<and> deletedAt r0 = None") simp_all
    with r0 show "r \<in> set tbl" by simp
  qed
  from delete_snd [of tbl w i now] show ?thesis
  proof (elim disjE exE conjE)
    assume "snd (CrudOperations_delete tbl w i now) = tbl"
    with c show ?thesis by simp
  next
    fix act
    assume "snd (CrudOperations_delete tbl w i now) =
             map (\<lambda>r. if rowId r = rowId act \<and> deletedAt r = None
                        then r\<lparr>deletedAt := Some now, updatedAt := now\<rparr> else r) tbl"
    then show ?thesis by (simp only: marked)
  qed
qed

lemma engine_table_createdAt_consistent:
  "engine_table t \<Longrightarrow> createdAt_consistent t w"
proof (induction rule: engine_table.induct)
  case empty
  show ?case by (simp add: createdAt_consistent_def)
next
  case (create t newEntityId recordData newRowId now)
  then show ?case by (simp add: create_keeps_createdAt_consistent)
next
  case (update t wsId i updateData newRowId now)
  then show ?case by (simp add: update_keeps_createdAt_consistent)
next
  case (delete t wsId i now)
  then show ?case by (simp add: delete_keeps_createdAt_consistent)
qed

text \<open>
  Row ids are the primary key and every row is within its columns: each table
  the engine writes is one the backend can hold.
\<close>

lemma insert_values_keeps_table_ok:
  "table_ok tbl \<Longrightarrow> table_ok (snd (insert_values tbl r))"
  by (simp add: insert_values_def table_ok_def)

lemma create_keeps_table_ok:
  "table_ok tbl \<Longrightarrow> table_ok (snd (CrudOperations_create tbl recordData newEntityId newRowId now))"
  unfolding create_snd by (rule insert_values_keeps_table_ok)

lemma update_keeps_table_ok:
  "table_ok tbl \<Longrightarrow> table_ok (snd (CrudOperations_update tbl w i upd newRowId now))"
  using update_snd [of tbl w i upd newRowId now] insert_values_keeps_table_ok [of tbl]
  by auto

lemma delete_keeps_rowIds:
  "map rowId (snd (CrudOperations_delete tbl w i now)) = map rowId tbl"
  using delete_snd [of tbl w i now] by auto

lemma delete_keeps_table_ok:
  assumes "table_ok tbl"
  shows "table_ok (snd (CrudOperations_delete tbl w i now))"
proof -
  have "column_ok r" if "r \<in> set (snd (CrudOperations_delete tbl w i now))" for r
  proof -
    from delete_snd [of tbl w i now] that
    obtain r0 where "r0 \<in> set tbl" "r = r0 \<or> r = r0\<lparr>deletedAt := Some now, updatedAt := now\<rparr>"
      by (auto split: if_splits)
    with assms show ?thesis by (auto simp: table_ok_def column_ok_def)
  qed
  with assms show ?thesis by (simp add: table_ok_def delete_keeps_rowIds)
qed

lemma engine_table_ok:
  "engine_table t \<Longrightarrow> table_ok t"
proof (induction rule: engine_table.induct)
  case empty
  show ?case by (simp add: table_ok_def)
next
  case (create t newEntityId recordData newRowId now)
  then show ?case by (simp only: create_keeps_table_ok)
next
  case (update t wsId i updateData newRowId now)
  then show ?case by (simp only: update_keeps_table_ok)
next
  case (delete t wsId i now)
  then show ?case by (simp only: delete_keeps_table_ok)
qed

lemma engine_table_rowId_distinct:
  "engine_table t \<Longrightarrow> distinct (map rowId t)"
  using engine_table_ok [of t] by (simp add: table_ok_def)

section \<open>Append-only update\<close>

text \<open>
  Claim C1, as the code has it. Let \<open>prev\<close> be the current version that \<open>update\<close>
  resolves. When the new row id is not in the table, \<open>prev\<close> is within its columns
  and a supplied name has at most 255 characters, \<open>update\<close> returns a row and
  appends it. Whenever \<open>update\<close> returns a row \<open>r\<close>, the table afterwards is the old
  one with \<open>r\<close> appended, so every prior row is untouched; \<open>r\<close> carries the new
  row id, which no prior row has, the entity id and workspace asked for, the
  \<open>createdAt\<close> of \<open>prev\<close>, \<open>updatedAt = now\<close> and no \<open>deletedAt\<close>; its data is the
  data of \<open>prev\<close> overridden key by key with the caller's data; its name is the
  caller's name when one is supplied and is not the empty string, and the name of
  \<open>prev\<close> otherwise. An \<open>update\<close> that raises leaves the table as it was.
\<close>
theorem C1_update_appends_merged_version:
  assumes "getLatestRecordById tbl w i = Inr (Some prev)"
  shows "(newRowId \<notin> set (map rowId tbl) \<and> column_ok prev
            \<and> (\<forall>n. u_name upd = Defined n \<longrightarrow> length n \<le> 255)
          \<longrightarrow> (\<exists>r. CrudOperations_update tbl w i upd newRowId now = (Inr (Some r), tbl @ [r])))
       \<and> (\<forall>r tbl'. CrudOperations_update tbl w i upd newRowId now = (Inr (Some r), tbl')
          \<longrightarrow> tbl' = tbl @ [r]
            \<and> rowId r = newRowId \<and> rowId r \<notin> set (map rowId tbl)
            \<and> entityId r = i \<and> workspaceId r = w
            \<and> createdAt r = createdAt prev \<and> updatedAt r = now \<and> deletedAt r = None
            \<and> name r = (case u_name upd of
                           Defined n \<Rightarrow> if n = [] then name prev else n
                         | _ \<Rightarrow> name prev)
            \<and> data r = data prev ++ (case u_data upd of Defined d \<Rightarrow> d | _ \<Rightarrow> Map.empty))
       \<and> (\<forall>e tbl'. CrudOperations_update tbl w i upd newRowId now = (Inl e, tbl')
          \<longrightarrow> tbl' = tbl)"
proof (intro conjI impI allI)
  fix e tbl' assume "CrudOperations_update tbl w i upd newRowId now = (Inl e, tbl')"
  then show "tbl' = tbl" by (rule update_failure_writes_nothing)
next
  assume a: "newRowId \<notin> set (map rowId tbl) \<and> column_ok prev
               \<and> (\<forall>n. u_name upd = Defined n \<longrightarrow> length n \<le> 255)"
  then have "length (name_or (u_name upd) (name prev)) \<le> 255"
    by (cases "u_name upd") (simp_all add: name_or_def column_ok_def)
  with a show "\<exists>r. CrudOperations_update tbl w i upd newRowId now = (Inr (Some r), tbl @ [r])"
    using update_succeeds [OF assms] by blast
next
  fix r tbl'
  assume ret: "CrudOperations_update tbl w i upd newRowId now = (Inr (Some r), tbl')"
  from getLatestRecordById_SomeD [OF assms]
  have p: "entityId prev = i" "workspaceId prev = w" by simp_all
  from update_returns_row [OF assms ret]
  have r: "r = \<lparr> rowId = newRowId, workspaceId = workspaceId prev, entityId = entityId prev,
               name = name_or (u_name upd) (name prev),
               data = merge_data (data prev) (u_data upd),
               createdAt = createdAt prev, updatedAt = now, deletedAt = None \<rparr>"
    and t: "tbl' = tbl @ [r]" and f: "newRowId \<notin> set (map rowId tbl)" by simp_all
  show "tbl' = tbl @ [r]" by (rule t)
  show "rowId r = newRowId" by (simp add: r)
  show "rowId r \<notin> set (map rowId tbl)" using f by (simp add: r)
  show "entityId r = i" by (simp add: r p)
  show "workspaceId r = w" by (simp add: r p)
  show "createdAt r = createdAt prev" by (simp add: r)
  show "updatedAt r = now" by (simp add: r)
  show "deletedAt r = None" by (simp add: r)
  show "name r = (case u_name upd of Defined n \<Rightarrow> if n = [] then name prev else n
                   | _ \<Rightarrow> name prev)"
    by (simp add: r name_or_def split: js_opt.splits)
  show "data r = data prev ++ (case u_data upd of Defined d \<Rightarrow> d | _ \<Rightarrow> Map.empty)"
    by (simp add: r merge_data_def split: js_opt.splits)
qed

text \<open>
  Claim C1, the scenario of the specification: the entity created with name \<open>A\<close> and
  data \<open>{x: 1}\<close>, updated with data \<open>{y: 2}\<close> only.
\<close>
theorem C1_update_appends_merged_version_witness:
  "getLatestRecordById [row_v1] 1 ''e1'' = Inr (Some row_v1)
   \<and> ''r2'' \<notin> set (map rowId [row_v1]) \<and> column_ok row_v1
   \<and> CrudOperations_update [row_v1] 1 ''e1'' \<lparr>u_name = Undefined, u_data = Defined [''y'' \<mapsto> 2]\<rparr> ''r2'' 20
     = (Inr (Some row_v2), [row_v1, row_v2])"
  using C1_update_appends_merged_version [of "[row_v1]" 1 "''e1''" row_v1 "''r2''"
      "\<lparr>u_name = Undefined, u_data = Defined [''y'' \<mapsto> 2]\<rparr>" 20]
  by (simp add: row_v1_def row_v2_def getLatestRecordById_def getLatestRecords_def
        select_where_orderBy_def orderBy_desc_def int32_ok_def column_ok_def
        CrudOperations_update_def insert_values_def first_or_null_def name_or_def merge_data_def
        Let_def)

text \<open>
  Claim C1 as worded fails on a supplied empty name: the caller supplies the name
  of length zero, and the new version keeps the name \<open>A\<close> of the prior version.
\<close>
theorem C1_empty_name_counterexample:
  "CrudOperations_update [row_v1] 1 ''e1'' \<lparr>u_name = Defined '''', u_data = Defined [''y'' \<mapsto> 2]\<rparr> ''r2'' 20
     = (Inr (Some row_v2), [row_v1, row_v2]) \<and> name row_v2 \<noteq> ''''"
  by (simp add: row_v1_def row_v2_def getLatestRecordById_def getLatestRecords_def
        select_where_orderBy_def orderBy_desc_def int32_ok_def column_ok_def
        CrudOperations_update_def insert_values_def first_or_null_def name_or_def merge_data_def
        Let_def)

text \<open>
  Claim C10. Let \<open>prev\<close> be the current version that \<open>update\<close> resolves. Whenever
  \<open>update\<close> returns a row, a supplied name that is absent, \<open>null\<close> or the empty
  string has left the name of \<open>prev\<close>, and any other name has replaced it; data that
  is absent or \<open>null\<close> has left the data of \<open>prev\<close>, and an object has been merged
  over it. It returns a row when the new row id is not in the table, \<open>prev\<close> is
  within its columns and a supplied name has at most 255 characters.
\<close>
theorem C10_falsy_patch_values_ignored:
  assumes "getLatestRecordById tbl w i = Inr (Some prev)"
  shows "(\<forall>r tbl'. CrudOperations_update tbl w i upd newRowId now = (Inr (Some r), tbl')
          \<longrightarrow> (u_name upd \<in> {Undefined, Null, Defined ''''} \<longrightarrow> name r = name prev)
            \<and> (\<forall>n. u_name upd = Defined n \<and> n \<noteq> '''' \<longrightarrow> name r = n)
            \<and> (u_data upd \<in> {Undefined, Null} \<longrightarrow> data r = data prev)
            \<and> (\<forall>d. u_data upd = Defined d \<longrightarrow> data r = data prev ++ d))
       \<and> (newRowId \<notin> set (map rowId tbl) \<and> column_ok prev
            \<and> (\<forall>n. u_name upd = Defined n \<longrightarrow> length n \<le> 255)
          \<longrightarrow> (\<exists>r. CrudOperations_update tbl w i upd newRowId now = (Inr (Some r), tbl @ [r])))"
proof (intro conjI allI impI)
  fix r tbl'
  assume ret: "CrudOperations_update tbl w i upd newRowId now = (Inr (Some r), tbl')"
  from update_returns_row [OF assms ret]
  have r: "r = \<lparr> rowId = newRowId, workspaceId = workspaceId prev, entityId = entityId prev,
               name = name_or (u_name upd) (name prev),
               data = merge_data (data prev) (u_data upd),
               createdAt = createdAt prev, updatedAt = now, deletedAt = None \<rparr>" by simp
  { assume "u_name upd \<in> {Undefined, Null, Defined ''''}"
    then show "name r = name prev" by (auto simp: r name_or_def) }
  { fix n assume "u_name upd = Defined n \<and> n \<noteq> ''''"
    then show "name r = n" by (simp add: r name_or_def) }
  { assume "u_data upd \<in> {Undefined, Null}"
    then show "data r = data prev" by (auto simp: r merge_data_def) }
  { fix d assume "u_data upd = Defined d"
    then show "data r = data prev ++ d" by (simp add: r merge_data_def) }
next
  assume a: "newRowId \<notin> set (map rowId tbl) \<and> column_ok prev
               \<and> (\<forall>n. u_name upd = Defined n \<longrightarrow> length n \<le> 255)"
  then have "length (name_or (u_name upd) (name prev)) \<le> 255"
    by (cases "u_name upd") (simp_all add: name_or_def column_ok_def)
  with a show "\<exists>r. CrudOperations_update tbl w i upd newRowId now = (Inr (Some r), tbl @ [r])"
    using update_succeeds [OF assms] by blast
qed

text \<open>
  Claim C10 on the entity named \<open>A\<close>, patched with the empty name and \<open>null\<close> data.
\<close>
theorem C10_falsy_patch_values_ignored_witness:
  "getLatestRecordById [row_v1] 1 ''e1'' = Inr (Some row_v1)
   \<and> ''r2'' \<notin> set (map rowId [row_v1]) \<and> column_ok row_v1
   \<and> (\<exists>r. CrudOperations_update [row_v1] 1 ''e1'' \<lparr>u_name = Defined '''', u_data = Null\<rparr> ''r2'' 20
           = (Inr (Some r), [row_v1, r])
         \<and> name r = ''A'' \<and> data r = data row_v1)"
proof -
  have prev: "getLatestRecordById [row_v1] 1 ''e1'' = Inr (Some row_v1)"
    by (simp add: row_v1_def getLatestRecordById_def getLatestRecords_def
          select_where_orderBy_def orderBy_desc_def int32_ok_def first_or_null_def)
  have ok: "''r2'' \<notin> set (map rowId [row_v1]) \<and> column_ok row_v1
              \<and> (\<forall>n. u_name \<lparr>u_name = Defined '''', u_data = Null\<rparr> = Defined n \<longrightarrow> length n \<le> 255)"
    by (simp add: row_v1_def column_ok_def int32_ok_def)
  note c10 = C10_falsy_patch_values_ignored [OF prev, of "\<lparr>u_name = Defined '''', u_data = Null\<rparr>"
      "''r2''" 20]
  from c10 ok obtain r where
    r: "CrudOperations_update [row_v1] 1 ''e1'' \<lparr>u_name = Defined '''', u_data = Null\<rparr> ''r2'' 20
          = (Inr (Some r), [row_v1] @ [r])" by blast
  with c10 have "name r = name row_v1" "data r = data row_v1" by simp_all
  with r prev ok show ?thesis by (auto simp: row_v1_def)
qed




section \<open>Latest version per entity\<close>

lemma engine_table_example: "engine_table [row_v1, row_v2]"
proof -
  have c: "snd (CrudOperations_create [] \<lparr>c_workspaceId = 1, c_name = ''A'',
                  c_data = Defined [''x'' \<mapsto> (1::int)]\<rparr> ''e1'' ''r1'' 10) = [row_v1]"
    by (simp add: row_v1_def CrudOperations_create_def insert_values_def column_ok_def
          int32_ok_def first_or_null_def Let_def)
  have "engine_table (snd (CrudOperations_create [] \<lparr>c_workspaceId = 1, c_name = ''A'',
                  c_data = Defined [''x'' \<mapsto> (1::int)]\<rparr> ''e1'' ''r1'' 10))"
    by (rule engine_table.create [OF engine_table.empty]) simp
  then have e1: "engine_table [row_v1]" by (simp only: c)
  have u: "snd (CrudOperations_update [row_v1] 1 ''e1''
                  \<lparr>u_name = Undefined, u_data = Defined [''y'' \<mapsto> 2]\<rparr> ''r2'' 20) = [row_v1, row_v2]"
    by (simp add: row_v1_def row_v2_def getLatestRecordById_def getLatestRecords_def
          select_where_orderBy_def orderBy_desc_def int32_ok_def column_ok_def
          CrudOperations_update_def insert_values_def first_or_null_def name_or_def
          merge_data_def Let_def)
  from engine_table.update [OF e1, of 1 "''e1''"
      "\<lparr>u_name = Undefined, u_data = Defined [''y'' \<mapsto> 2]\<rparr>" "''r2''" 20]
  show ?thesis by (simp only: u)
qed

text \<open>
  Claim C2. On a table written by \<open>create\<close>, \<open>update\<close> and \<open>delete\<close>, \<open>getAll\<close>
  answers for every workspace id of the 32-bit column, and its answer holds one row
  per entity id, for exactly the entity ids that have an active row in the
  workspace; every row returned is an active row of the workspace, and no active
  row of the workspace with the same entity id has a greater \<open>updatedAt\<close>.
\<close>
theorem C2_getAll_latest_per_entity:
  assumes "engine_table tbl"
  shows "(int32_ok w \<longrightarrow> (\<exists>rs. CrudOperations_getAll tbl w = Inr rs))
       \<and> (\<forall>rs. CrudOperations_getAll tbl w = Inr rs \<longrightarrow>
            distinct (map entityId rs)
            \<and> set (map entityId rs)
                = entityId ` {r \<in> set tbl. workspaceId r = w \<and> deletedAt r = None}
            \<and> (\<forall>r\<in>set rs.
                 r \<in> set tbl \<and> workspaceId r = w \<and> deletedAt r = None
                 \<and> (\<forall>r'\<in>set tbl. workspaceId r' = w \<and> deletedAt r' = None
                        \<and> entityId r' = entityId r \<longrightarrow> updatedAt r' \<le> updatedAt r)))"
proof (intro conjI impI allI ballI)
  assume "int32_ok w"
  then show "\<exists>rs. CrudOperations_getAll tbl w = Inr rs" by (simp add: getAll_Inr_iff)
next
  fix rs assume rs: "CrudOperations_getAll tbl w = Inr rs"
  show "distinct (map entityId rs)" by (rule getAll_distinct [OF rs])
  show "set (map entityId rs) = entityId ` {r \<in> set tbl. workspaceId r = w \<and> deletedAt r = None}"
    by (rule getAll_covers [OF rs])
  fix r assume r: "r \<in> set rs"
  from getAll_member [OF rs r]
  show "r \<in> set tbl" and "workspaceId r = w" and "deletedAt r = None" by simp_all
  fix r' assume "r' \<in> set tbl"
    and "workspaceId r' = w \<and> deletedAt r' = None \<and> entityId r' = entityId r"
  then show "updatedAt r' \<le> updatedAt r"
    using getAll_greatest [OF engine_table_createdAt_consistent [OF assms] rs r] by blast
qed

text \<open>
  Claim C2 on the two versions of one entity, as \<open>create\<close> and \<open>update\<close> wrote them:
  only the later version is returned.
\<close>
theorem C2_getAll_latest_per_entity_witness:
  "engine_table [row_v1, row_v2] \<and> int32_ok 1
   \<and> CrudOperations_getAll [row_v1, row_v2] 1 = Inr [row_v2]
   \<and> updatedAt row_v1 \<le> updatedAt row_v2"
  using C2_getAll_latest_per_entity [OF engine_table_example, of 1] engine_table_example
  by (simp add: row_v1_def row_v2_def CrudOperations_getAll_def getLatestRecords_def
        select_where_orderBy_def orderBy_desc_def int32_ok_def latest_step_def)

section \<open>Soft delete\<close>

text \<open>
  What \<open>delete\<close> does on a table with unique row ids: without an active row it
  returns \<open>false\<close> and changes nothing; otherwise it returns \<open>true\<close> and changes
  the current row alone, adding none. When the current row is the only active row
  of the entity, a second \<open>delete\<close> returns \<open>false\<close> and changes nothing.
\<close>

lemma delete_without_active_row:
  assumes "getLatestRecordById tbl w i = Inr None"
  shows "CrudOperations_delete tbl w i now = (Inr False, tbl)"
  using assms by (simp add: CrudOperations_delete_def)

lemma delete_marks_current_row:
  assumes act: "getLatestRecordById tbl w i = Inr (Some act)" and pk: "distinct (map rowId tbl)"
  shows "CrudOperations_delete tbl w i now =
           (Inr True,
            map (\<lambda>r. if r = act then act\<lparr>deletedAt := Some now, updatedAt := now\<rparr> else r) tbl)"
proof -
  from getLatestRecordById_SomeD [OF act]
  have a: "act \<in> set tbl" "deletedAt act = None" by simp_all
  have inj: "inj_on rowId (set tbl)" using pk by (simp add: distinct_map)
  have same: "rowId r = rowId act \<longleftrightarrow> r = act" if "r \<in> set tbl" for r
    using inj a(1) that by (auto dest: inj_onD)
  have m: "map (\<lambda>r. if rowId r = rowId act \<and> deletedAt r = None
                     then r\<lparr>deletedAt := Some now, updatedAt := now\<rparr> else r) tbl
         = map (\<lambda>r. if r = act then act\<lparr>deletedAt := Some now, updatedAt := now\<rparr> else r) tbl"
    by (rule map_cong [OF refl]) (use same a(2) in auto)
  have "filter (\<lambda>r. rowId r = rowId act \<and> deletedAt r = None) tbl \<noteq> []"
    using a by (auto simp: filter_empty_conv)
  with act m show ?thesis by (simp add: CrudOperations_delete_def update_set_def)
qed

lemma second_delete_of_single_version:
  assumes act: "getLatestRecordById tbl w i = Inr (Some act)" and pk: "distinct (map rowId tbl)"
    and only: "\<And>r. r \<in> set tbl \<Longrightarrow> workspaceId r = w \<Longrightarrow> entityId r = i \<Longrightarrow> deletedAt r = None
                 \<Longrightarrow> r = act"
  shows "CrudOperations_delete (snd (CrudOperations_delete tbl w i now)) w i now'
           = (Inr False, snd (CrudOperations_delete tbl w i now))"
proof -
  let ?t = "map (\<lambda>r. if r = act then act\<lparr>deletedAt := Some now, updatedAt := now\<rparr> else r) tbl"
  from getLatestRecordById_SomeD [OF act] have w: "int32_ok w" by simp
  have t: "snd (CrudOperations_delete tbl w i now) = ?t"
    by (simp add: delete_marks_current_row [OF act pk])
  have "\<not> (workspaceId r = w \<and> deletedAt r = None \<and> entityId r = i)" if "r \<in> set ?t" for r
  proof -
    from that obtain r0 where r0: "r0 \<in> set tbl"
      "r = (if r0 = act then act\<lparr>deletedAt := Some now, updatedAt := now\<rparr> else r0)" by auto
    show ?thesis
    proof (cases "r0 = act")
      case True
      with r0 show ?thesis by simp
    next
      case False
      with r0 only [of r0] show ?thesis by auto
    qed
  qed
  with w have "getLatestRecordById ?t w i = Inr None"
    unfolding getLatestRecordById_None_iff by blast
  then show ?thesis unfolding t by (rule delete_without_active_row)
qed

text \<open>
  Claim C7 at an entity that was updated once. \<open>create\<close>, \<open>update\<close> and the first
  \<open>delete\<close> behave as claimed: the first \<open>delete\<close> marks the current row only.
  The earlier version is still active, so \<open>get\<close> resolves the entity to it, and the
  second \<open>delete\<close> returns \<open>true\<close> and marks a second row.
\<close>
theorem C7_second_delete_succeeds:
  "CrudOperations_create [] \<lparr>c_workspaceId = 1, c_name = ''A'', c_data = Defined [''x'' \<mapsto> 1]\<rparr>
       ''e1'' ''r1'' 10 = (Inr (Some row_v1), [row_v1])
   \<and> CrudOperations_update [row_v1] 1 ''e1'' \<lparr>u_name = Undefined, u_data = Defined [''y'' \<mapsto> 2]\<rparr>
       ''r2'' 20 = (Inr (Some row_v2), [row_v1, row_v2])
   \<and> CrudOperations_delete [row_v1, row_v2] 1 ''e1'' 30
       = (Inr True, [row_v1, row_v2\<lparr>deletedAt := Some 30, updatedAt := 30\<rparr>])
   \<and> CrudOperations_get [row_v1, row_v2\<lparr>deletedAt := Some 30, updatedAt := 30\<rparr>] 1 ''e1''
       = Inr (Some row_v1)
   \<and> CrudOperations_delete [row_v1, row_v2\<lparr>deletedAt := Some 30, updatedAt := 30\<rparr>] 1 ''e1'' 40
       = (Inr True, [row_v1\<lparr>deletedAt := Some 40, updatedAt := 40\<rparr>,
                     row_v2\<lparr>deletedAt := Some 30, updatedAt := 30\<rparr>])"
  by (simp add: row_v1_def row_v2_def CrudOperations_create_def CrudOperations_update_def
        CrudOperations_delete_def CrudOperations_get_def getLatestRecordById_def
        getLatestRecords_def select_where_orderBy_def orderBy_desc_def int32_ok_def column_ok_def
        insert_values_def update_set_def first_or_null_def
        name_or_def merge_data_def Let_def)

section \<open>Workspace isolation\<close>

lemma select_where_orderBy_filter_ws:
  "select_where_orderBy (filter (\<lambda>r. workspaceId r = w) tbl) w cs = select_where_orderBy tbl w cs"
proof -
  have "filter (\<lambda>r. workspaceId r = w \<and> deletedAt r = None \<and> list_all (\<lambda>c. c r) cs)
          (filter (\<lambda>r. workspaceId r = w) tbl)
        = filter (\<lambda>r. workspaceId r = w \<and> deletedAt r = None \<and> list_all (\<lambda>c. c r) cs) tbl"
    by (induction tbl) simp_all
  then show ?thesis by (simp only: select_where_orderBy_def)
qed

lemma same_ws_rows_same_queries:
  assumes "filter (\<lambda>r. workspaceId r = w) tbl' = filter (\<lambda>r. workspaceId r = w) tbl"
  shows "getLatestRecords tbl' w cs = getLatestRecords tbl w cs"
  using select_where_orderBy_filter_ws [of w tbl' cs] select_where_orderBy_filter_ws [of w tbl cs]
    assms
  by (simp add: getLatestRecords_def)

lemma update_other_ws:
  assumes "w' \<noteq> w"
  shows "filter (\<lambda>r. workspaceId r = w') (snd (CrudOperations_update tbl w i upd rid now))
           = filter (\<lambda>r. workspaceId r = w') tbl"
proof -
  from update_snd [of tbl w i upd rid now] show ?thesis
  proof (elim disjE exE conjE)
    assume "snd (CrudOperations_update tbl w i upd rid now) = tbl"
    then show ?thesis by simp
  next
    fix prev
    assume p: "getLatestRecordById tbl w i = Inr (Some prev)"
      and s: "snd (CrudOperations_update tbl w i upd rid now) =
           snd (insert_values tbl
                  \<lparr> rowId = rid, workspaceId = workspaceId prev, entityId = entityId prev,
                    name = name_or (u_name upd) (name prev),
                    data = merge_data (data prev) (u_data upd),
                    createdAt = createdAt prev, updatedAt = now, deletedAt = None \<rparr>)"
    from getLatestRecordById_SomeD [OF p] have "workspaceId prev = w" by simp
    with assms show ?thesis unfolding s by (simp add: insert_values_def)
  qed
qed

lemma filter_map_unchanged:
  "(\<And>r. r \<in> set xs \<Longrightarrow> Q (g r) = Q r) \<Longrightarrow> (\<And>r. r \<in> set xs \<Longrightarrow> Q r \<Longrightarrow> g r = r)
     \<Longrightarrow> filter Q (map g xs) = filter Q xs"
  by (induction xs) auto

lemma delete_other_ws:
  assumes "w' \<noteq> w" and pk: "distinct (map rowId tbl)"
  shows "filter (\<lambda>r. workspaceId r = w') (snd (CrudOperations_delete tbl w i now))
           = filter (\<lambda>r. workspaceId r = w') tbl"
proof -
  from delete_snd [of tbl w i now] show ?thesis
  proof (elim disjE exE conjE)
    assume "snd (CrudOperations_delete tbl w i now) = tbl"
    then show ?thesis by simp
  next
    fix act
    assume a0: "getLatestRecordById tbl w i = Inr (Some act)"
      and s: "snd (CrudOperations_delete tbl w i now) =
             map (\<lambda>r. if rowId r = rowId act \<and> deletedAt r = None
                        then r\<lparr>deletedAt := Some now, updatedAt := now\<rparr> else r) tbl"
    from getLatestRecordById_SomeD [OF a0] have a: "act \<in> set tbl" "workspaceId act = w" by simp_all
    have inj: "inj_on rowId (set tbl)" using pk by (simp add: distinct_map)
    have same: "r = act" if "r \<in> set tbl" "rowId r = rowId act" for r
      using inj a(1) that by (auto dest: inj_onD)
    have "filter (\<lambda>r. workspaceId r = w')
            (map (\<lambda>r. if rowId r = rowId act \<and> deletedAt r = None
                       then r\<lparr>deletedAt := Some now, updatedAt := now\<rparr> else r) tbl)
          = filter (\<lambda>r. workspaceId r = w') tbl"
    proof (rule filter_map_unchanged)
      fix r assume "r \<in> set tbl"
      show "(workspaceId (if rowId r = rowId act \<and> deletedAt r = None
                       then r\<lparr>deletedAt := Some now, updatedAt := now\<rparr> else r) = w') = (workspaceId r = w')"
        by simp
    next
      fix r assume r: "r \<in> set tbl" "workspaceId r = w'"
      with same a(2) assms(1) have "rowId r \<noteq> rowId act" by blast
      then show "(if rowId r = rowId act \<and> deletedAt r = None
                       then r\<lparr>deletedAt := Some now, updatedAt := now\<rparr> else r) = r" by simp
    qed
    then show ?thesis unfolding s .
  qed
qed

text \<open>
  Claim C8. On a table with unique row ids, a row of workspace \<open>w\<close> is never
  returned by \<open>get\<close> or \<open>getAll\<close> of another workspace \<open>w'\<close>; \<open>update\<close> and
  \<open>delete\<close> in \<open>w'\<close> leave the rows of \<open>w\<close> as they are, and with them every answer
  of \<open>get\<close> and \<open>getAll\<close> in \<open>w\<close>.
\<close>
theorem C8_workspace_partition:
  assumes "w' \<noteq> w" and "distinct (map rowId tbl)"
  shows "(\<forall>r. workspaceId r = w \<longrightarrow>
            CrudOperations_get tbl w' i \<noteq> Inr (Some r)
            \<and> (\<forall>rs. CrudOperations_getAll tbl w' = Inr rs \<longrightarrow> r \<notin> set rs))
       \<and> filter (\<lambda>r. workspaceId r = w) (snd (CrudOperations_update tbl w' i upd rid now))
            = filter (\<lambda>r. workspaceId r = w) tbl
       \<and> filter (\<lambda>r. workspaceId r = w) (snd (CrudOperations_delete tbl w' i now))
            = filter (\<lambda>r. workspaceId r = w) tbl
       \<and> CrudOperations_get (snd (CrudOperations_update tbl w' i upd rid now)) w j = CrudOperations_get tbl w j
       \<and> CrudOperations_get (snd (CrudOperations_delete tbl w' i now)) w j = CrudOperations_get tbl w j
       \<and> CrudOperations_getAll (snd (CrudOperations_update tbl w' i upd rid now)) w = CrudOperations_getAll tbl w
       \<and> CrudOperations_getAll (snd (CrudOperations_delete tbl w' i now)) w = CrudOperations_getAll tbl w"
proof -
  have ne: "w \<noteq> w'" using assms(1) by blast
  have g: "CrudOperations_get tbl w' i \<noteq> Inr (Some r)" if "workspaceId r = w" for r
    using getLatestRecordById_SomeD [of tbl w' i r] that assms(1)
    by (auto simp: CrudOperations_get_def)
  have ga: "r \<notin> set rs" if "workspaceId r = w" "CrudOperations_getAll tbl w' = Inr rs" for r rs
    using getAll_member [OF that(2), of r] that(1) assms(1) by blast
  note u = update_other_ws [OF ne, of tbl i upd rid now]
  note d = delete_other_ws [OF ne assms(2), of i now]
  have qu: "getLatestRecords (snd (CrudOperations_update tbl w' i upd rid now)) w cs
              = getLatestRecords tbl w cs" for cs
    by (rule same_ws_rows_same_queries [OF u])
  have qd: "getLatestRecords (snd (CrudOperations_delete tbl w' i now)) w cs
              = getLatestRecords tbl w cs" for cs
    by (rule same_ws_rows_same_queries [OF d])
  show ?thesis
    using g ga u d
    by (simp add: CrudOperations_get_def getLatestRecordById_def CrudOperations_getAll_def qu qd)
qed

text \<open>
  Claim C8, the scenario of the specification: the entity of workspace 1 is found
  from workspace 1, not from workspace 2, and writes from workspace 2 leave it.
\<close>
theorem C8_workspace_partition_witness:
  "(2::int) \<noteq> 1 \<and> distinct (map rowId [row_v1])
   \<and> CrudOperations_get [row_v1] 1 ''e1'' = Inr (Some row_v1)
   \<and> CrudOperations_get [row_v1] 2 ''e1'' = Inr None
   \<and> CrudOperations_getAll [row_v1] 2 = Inr []
   \<and> snd (CrudOperations_delete [row_v1] 2 ''e1'' 30) = [row_v1]
   \<and> snd (CrudOperations_update [row_v1] 2 ''e1'' \<lparr>u_name = Defined ''Z'', u_data = Undefined\<rparr> ''r9'' 30)
       = [row_v1]"
  using C8_workspace_partition [of 2 1 "[row_v1]" "''e1''" "\<lparr>u_name = Defined ''Z'', u_data = Undefined\<rparr>"
      "''r9''" 30 "''e1''"]
  by (simp add: row_v1_def CrudOperations_get_def CrudOperations_getAll_def getLatestRecordById_def
        getLatestRecords_def select_where_orderBy_def orderBy_desc_def int32_ok_def
        first_or_null_def CrudOperations_delete_def CrudOperations_update_def)

section \<open>Round trip of the filter compiler\<close>

lemma endsWith_rev: "endsWith key suffix \<longleftrightarrow> take (length suffix) (rev key) = rev suffix"
proof
  assume "endsWith key suffix"
  then have l: "length suffix \<le> length key" and d: "drop (length key - length suffix) key = suffix"
    by (simp_all add: endsWith_def)
  have "take (length suffix) (rev key) = rev (drop (length key - length suffix) key)"
    using l by (simp add: rev_drop)
  with d show "take (length suffix) (rev key) = rev suffix" by simp
next
  assume a: "take (length suffix) (rev key) = rev suffix"
  then have "length (take (length suffix) (rev key)) = length suffix" by simp
  then have l: "length suffix \<le> length key" by simp
  have "rev (drop (length key - length suffix) key) = take (length suffix) (rev key)"
    using l by (simp add: rev_drop)
  with a have "rev (drop (length key - length suffix) key) = rev suffix" by simp
  then have "drop (length key - length suffix) key = suffix" by (simp only: rev_is_rev_conv)
  with l show "endsWith key suffix" by (simp add: endsWith_def)
qed

lemma parse_suffixed:
  assumes "oper \<noteq> OpEq"
  shows "parseFieldAndOperator (f @ ''_'' @ op_name oper) = (f, oper)"
  using assms
  by (cases oper) (simp_all add: parseFieldAndOperator_def operatorMappings_def endsWith_rev)

lemma suffixed_not_reserved:
  assumes "oper \<noteq> OpEq"
  shows "f @ ''_'' @ op_name oper \<notin> set RESERVED_QUERY_PARAMS"
proof
  assume "f @ ''_'' @ op_name oper \<in> set RESERVED_QUERY_PARAMS"
  then have "rev (op_name oper) @ ''_'' @ rev f \<in> rev ` set RESERVED_QUERY_PARAMS"
    by (metis (no_types, lifting) append.assoc image_eqI rev.simps(2) rev_append rev.simps(1) append_Nil)
  with assms show False
    by (cases oper) (auto simp: RESERVED_QUERY_PARAMS_def)
qed


lemma parse_filter_key:
  assumes "operator p = OpEq \<longrightarrow> (\<forall>m\<in>set operatorMappings. \<not> endsWith (field p) (fst m))"
  shows "parseFieldAndOperator (filter_key p) = (field p, operator p)"
proof (cases "operator p = OpEq")
  case True
  with assms have "find (\<lambda>(suffix, oper, len). endsWith (field p) suffix) operatorMappings = None"
    by (auto simp: find_None_iff)
  with True show ?thesis by (simp add: filter_key_def parseFieldAndOperator_def)
next
  case False
  then show ?thesis using parse_suffixed [of "operator p" "field p"] by (simp add: filter_key_def)
qed

lemma filter_key_not_reserved:
  assumes "operator p = OpEq \<longrightarrow> field p \<notin> set RESERVED_QUERY_PARAMS"
  shows "filter_key p \<notin> set RESERVED_QUERY_PARAMS"
  using assms suffixed_not_reserved [of "operator p" "field p"]
  by (cases "operator p = OpEq") (simp_all add: filter_key_def)

lemma suffixed_not_proto:
  assumes "oper \<noteq> OpEq"
  shows "f @ ''_'' @ op_name oper \<noteq> ''__proto__''"
proof
  assume "f @ ''_'' @ op_name oper = ''__proto__''"
  then have "rev (f @ ''_'' @ op_name oper) = rev ''__proto__''" by (simp only:)
  then have "rev (op_name oper) @ ''_'' @ rev f = ''__otorp__''" by simp
  with assms show False by (cases oper) auto
qed

lemma filter_key_not_proto:
  assumes "operator p = OpEq \<longrightarrow> field p \<noteq> ''__proto__''"
  shows "filter_key p \<noteq> ''__proto__''"
  using assms suffixed_not_proto [of "operator p" "field p"]
  by (cases "operator p = OpEq") (simp_all add: filter_key_def)

lemma toQueryParams_snoc:
  "toQueryParams (P @ [x]) = assign_property (toQueryParams P) (filter_key x) (fvalue x)"
  by (simp add: toQueryParams_def)

lemma toQueryParams_snoc_own:
  "filter_key x \<noteq> ''__proto__'' \<Longrightarrow>
     toQueryParams (P @ [x]) = AList.update (filter_key x) (fvalue x) (toQueryParams P)"
  by (simp add: toQueryParams_def assign_property_def)

lemma distinct_toQueryParams: "distinct (map fst (toQueryParams P))"
proof (induction P rule: rev_induct)
  case Nil
  show ?case by (simp add: toQueryParams_def)
next
  case (snoc x P)
  then show ?case by (simp add: toQueryParams_snoc assign_property_def distinct_update)
qed

lemma map_of_toQueryParams:
  assumes "\<forall>p\<in>set P. \<forall>q\<in>set P. filter_key p = filter_key q \<longrightarrow> fvalue p = fvalue q"
    and "\<forall>p\<in>set P. filter_key p \<noteq> ''__proto__''"
  shows "map_of (toQueryParams P) k = Some v \<longleftrightarrow> (\<exists>p\<in>set P. filter_key p = k \<and> fvalue p = v)"
  using assms
proof (induction P rule: rev_induct)
  case Nil
  show ?case by (simp add: toQueryParams_def)
next
  case (snoc x P)
  have sub: "\<forall>p\<in>set P. \<forall>q\<in>set P. filter_key p = filter_key q \<longrightarrow> fvalue p = fvalue q"
  proof (intro ballI impI)
    fix p q assume "p \<in> set P" "q \<in> set P" "filter_key p = filter_key q"
    moreover from this have "p \<in> set (P @ [x])" "q \<in> set (P @ [x])" by simp_all
    ultimately show "fvalue p = fvalue q" using snoc.prems(1) by blast
  qed
  have own: "\<forall>p\<in>set P. filter_key p \<noteq> ''__proto__''" and ownx: "filter_key x \<noteq> ''__proto__''"
    using snoc.prems(2) by simp_all
  note step = toQueryParams_snoc_own [OF ownx, of P]
  have ih: "map_of (toQueryParams P) k = Some v \<longleftrightarrow> (\<exists>p\<in>set P. filter_key p = k \<and> fvalue p = v)"
    by (rule snoc.IH [OF sub own])
  have x: "fvalue p = fvalue x" if "p \<in> set P" "filter_key p = filter_key x" for p
  proof -
    from that have "p \<in> set (P @ [x])" "x \<in> set (P @ [x])" by simp_all
    with that(2) snoc.prems(1) show ?thesis by blast
  qed
  show ?case
  proof (cases "k = filter_key x")
    case True
    have "(\<exists>p\<in>set (P @ [x]). filter_key p = k \<and> fvalue p = v) \<longleftrightarrow> fvalue x = v"
      using True x by auto
    then show ?thesis using True by (auto simp: step update_conv')
  next
    case False
    then show ?thesis using ih by (auto simp: step update_conv')
  qed
qed

lemma set_toQueryParams:
  assumes "\<forall>p\<in>set P. \<forall>q\<in>set P. filter_key p = filter_key q \<longrightarrow> fvalue p = fvalue q"
    and "\<forall>p\<in>set P. filter_key p \<noteq> ''__proto__''"
  shows "set (toQueryParams P) = (\<lambda>p. (filter_key p, fvalue p)) ` set P"
proof -
  have "(k, v) \<in> set (toQueryParams P) \<longleftrightarrow> (k, v) \<in> (\<lambda>p. (filter_key p, fvalue p)) ` set P" for k v
  proof -
    have "(k, v) \<in> set (toQueryParams P) \<longleftrightarrow> map_of (toQueryParams P) k = Some v"
      using distinct_toQueryParams [of P] by simp
    also have "\<dots> \<longleftrightarrow> (\<exists>p\<in>set P. filter_key p = k \<and> fvalue p = v)"
      by (rule map_of_toQueryParams [OF assms])
    also have "\<dots> \<longleftrightarrow> (k, v) \<in> (\<lambda>p. (filter_key p, fvalue p)) ` set P" by auto
    finally show ?thesis .
  qed
  then show ?thesis by (meson subrelI subset_antisym)
qed

lemma set_fromQueryParams:
  "set (fromQueryParams params) =
     (\<lambda>(key, v). \<lparr> field = fst (parseFieldAndOperator key),
                    operator = snd (parseFieldAndOperator key), fvalue = v \<rparr>)
       ` {(key, v) \<in> set params. key \<notin> set RESERVED_QUERY_PARAMS}"
  by (auto simp: fromQueryParams_def)

text \<open>
  Claim C3, as the code has it. Parsing the serialization of a predicate list gives
  back the same set of predicates when no equality predicate is on a reserved
  field, on the field \<open>__proto__\<close> or on a field that ends in an operator suffix,
  and no two predicates that serialize to the same key differ in their value.
\<close>
theorem C3_roundtrip_on_unambiguous_keys:
  fixes P :: "'v Filter list"
  assumes plain: "\<forall>p\<in>set P. operator p = OpEq \<longrightarrow>
             field p \<notin> set RESERVED_QUERY_PARAMS \<and> field p \<noteq> ''__proto__''
             \<and> (\<forall>m\<in>set operatorMappings. \<not> endsWith (field p) (fst m))"
    and single: "\<forall>p\<in>set P. \<forall>q\<in>set P. filter_key p = filter_key q \<longrightarrow> fvalue p = fvalue q"
  shows "set (fromQueryParams (toQueryParams P)) = set P"
proof -
  have restore: "\<lparr> field = fst (parseFieldAndOperator (filter_key p)),
                operator = snd (parseFieldAndOperator (filter_key p)), fvalue = fvalue p \<rparr> = p"
    if "p \<in> set P" for p
  proof -
    from plain that
    have "operator p = OpEq \<longrightarrow> (\<forall>m\<in>set operatorMappings. \<not> endsWith (field p) (fst m))"
      by blast
    then have "parseFieldAndOperator (filter_key p) = (field p, operator p)"
      by (rule parse_filter_key)
    then show ?thesis by simp
  qed
  have keep: "filter_key p \<notin> set RESERVED_QUERY_PARAMS" if "p \<in> set P" for p
  proof -
    from plain that have "operator p = OpEq \<longrightarrow> field p \<notin> set RESERVED_QUERY_PARAMS" by blast
    then show ?thesis by (rule filter_key_not_reserved)
  qed
  have own: "\<forall>p\<in>set P. filter_key p \<noteq> ''__proto__''"
  proof
    fix p assume "p \<in> set P"
    with plain have "operator p = OpEq \<longrightarrow> field p \<noteq> ''__proto__''" by blast
    then show "filter_key p \<noteq> ''__proto__''" by (rule filter_key_not_proto)
  qed
  have "{(key, v) \<in> set (toQueryParams P). key \<notin> set RESERVED_QUERY_PARAMS}
          = (\<lambda>p. (filter_key p, fvalue p)) ` set P"
    using keep by (auto simp: set_toQueryParams [OF single own])
  then have "set (fromQueryParams (toQueryParams P))
          = (\<lambda>p. \<lparr> field = fst (parseFieldAndOperator (filter_key p)),
                    operator = snd (parseFieldAndOperator (filter_key p)), fvalue = fvalue p \<rparr>) ` set P"
    by (simp add: set_fromQueryParams image_image)
  also have "\<dots> = (\<lambda>p. p) ` set P"
    by (rule image_cong) (simp_all add: restore)
  finally show ?thesis by simp
qed

text \<open>
  Claim C3 on the predicates \<open>age > 30\<close> and \<open>name = 7\<close>.
\<close>
theorem C3_roundtrip_on_unambiguous_keys_witness:
  "set (fromQueryParams (toQueryParams
      [\<lparr> field = ''age'', operator = OpGt, fvalue = (30::int) \<rparr>,
       \<lparr> field = ''name'', operator = OpEq, fvalue = 7 \<rparr>]))
   = set [\<lparr> field = ''age'', operator = OpGt, fvalue = 30 \<rparr>,
          \<lparr> field = ''name'', operator = OpEq, fvalue = 7 \<rparr>]"
proof (rule C3_roundtrip_on_unambiguous_keys)
  show "\<forall>p\<in>set [\<lparr> field = ''age'', operator = OpGt, fvalue = (30::int) \<rparr>,
                 \<lparr> field = ''name'', operator = OpEq, fvalue = 7 \<rparr>].
          operator p = OpEq \<longrightarrow> field p \<notin> set RESERVED_QUERY_PARAMS \<and> field p \<noteq> ''__proto__''
             \<and> (\<forall>m\<in>set operatorMappings. \<not> endsWith (field p) (fst m))"
    by (simp add: RESERVED_QUERY_PARAMS_def operatorMappings_def endsWith_def)
  show "\<forall>p\<in>set [\<lparr> field = ''age'', operator = OpGt, fvalue = (30::int) \<rparr>,
                 \<lparr> field = ''name'', operator = OpEq, fvalue = 7 \<rparr>].
        \<forall>q\<in>set [\<lparr> field = ''age'', operator = OpGt, fvalue = (30::int) \<rparr>,
                 \<lparr> field = ''name'', operator = OpEq, fvalue = 7 \<rparr>].
          filter_key p = filter_key q \<longrightarrow> fvalue p = fvalue q"
    by (simp add: filter_key_def)
qed

text \<open>
  Claim C3 as worded fails on the equality predicate on the field \<open>a_gt\<close>: it
  serializes as \<open>a_gt\<close>, which parses as \<open>a > 1\<close>.
\<close>
theorem C3_suffix_in_field_counterexample:
  "fromQueryParams (toQueryParams [\<lparr> field = ''a_gt'', operator = OpEq, fvalue = (1::int) \<rparr>])
     = [\<lparr> field = ''a'', operator = OpGt, fvalue = 1 \<rparr>]
   \<and> set (fromQueryParams (toQueryParams [\<lparr> field = ''a_gt'', operator = OpEq, fvalue = (1::int) \<rparr>]))
     \<noteq> set [\<lparr> field = ''a_gt'', operator = OpEq, fvalue = 1 \<rparr>]"
  by (simp add: fromQueryParams_def toQueryParams_def assign_property_def filter_key_def
        parseFieldAndOperator_def operatorMappings_def endsWith_def RESERVED_QUERY_PARAMS_def)

section \<open>Read paths under a failing backend\<close>

text \<open>
  Claim C4, as the code has it. When the select or the count of \<open>findMany\<close> throws,
  \<open>findMany\<close> returns no records and a count of zero. When the count of \<open>count\<close>
  throws, \<open>count\<close> throws the same error.
\<close>
theorem C4_findMany_degrades_count_rethrows:
  "(db_select db (GenericCrudEngine_findMany_query js cols params) s = Inl e
      \<or> db_count db (q_where (GenericCrudEngine_findMany_query js cols params)) s = Inl e
    \<longrightarrow> GenericCrudEngine_findMany js db cols params s = \<lparr> records = [], record_count = 0 \<rparr>)
   \<and> (db_select db (CrudHandler_findMany_query js cols params) s = Inl e
      \<or> db_count db (q_where (CrudHandler_findMany_query js cols params)) s = Inl e
    \<longrightarrow> CrudHandler_findMany js db cols params s = \<lparr> records = [], record_count = 0 \<rparr>)
   \<and> (db_count db (q_where (GenericCrudEngine_findMany_query js cols params)) s = Inl e
    \<longrightarrow> GenericCrudEngine_count db cols params s = Inl e)
   \<and> (db_count db (q_where (CrudHandler_findMany_query js cols params)) s = Inl e
    \<longrightarrow> CrudHandler_count db cols params s = Inl e)"
  by (auto simp: GenericCrudEngine_findMany_def CrudHandler_findMany_def
        GenericCrudEngine_count_def CrudHandler_count_def
        GenericCrudEngine_findMany_query_def CrudHandler_findMany_query_def Let_def
        split: sum.splits)

text \<open>
  Claim C4 on a backend that refuses every call.
\<close>
theorem C4_findMany_degrades_count_rethrows_witness:
  "db_select failing_db (GenericCrudEngine_findMany_query example_js users_cols no_params) ()
     = Inl ''connection refused''
   \<and> GenericCrudEngine_findMany example_js failing_db users_cols no_params ()
     = \<lparr> records = [], record_count = 0 \<rparr>
   \<and> CrudHandler_findMany example_js failing_db users_cols no_params ()
     = \<lparr> records = [], record_count = 0 \<rparr>
   \<and> GenericCrudEngine_count failing_db users_cols no_params () = Inl ''connection refused''
   \<and> CrudHandler_count failing_db users_cols no_params () = Inl ''connection refused''"
  using C4_findMany_degrades_count_rethrows [of failing_db example_js users_cols no_params "()"
      "''connection refused''"]
  by (simp add: failing_db_def)

text \<open>
  Claim C4 as worded fails for \<open>count\<close>: on the backend that refuses every call it
  throws the backend's error and does not return zero.
\<close>
theorem C4_count_rethrows_counterexample:
  "GenericCrudEngine_count failing_db users_cols no_params () = Inl ''connection refused''
   \<and> GenericCrudEngine_count failing_db users_cols no_params () \<noteq> Inr 0
   \<and> CrudHandler_count failing_db users_cols no_params () = Inl ''connection refused''
   \<and> CrudHandler_count failing_db users_cols no_params () \<noteq> Inr 0"
  by (simp add: GenericCrudEngine_count_def CrudHandler_count_def failing_db_def)

section \<open>Pagination\<close>

lemma effective_limit_of_number:
  "or_default (qp_limit params) 10 = PNum (Finite x)
     \<Longrightarrow> effective_limit js params = Finite (clamp x 1 100)"
  by (simp add: effective_limit_def clamp_def max_def min_def)

lemma effective_limit_of_string:
  "or_default (qp_limit params) 10 = PStr s \<Longrightarrow> StringToNumber js s = Finite x
     \<Longrightarrow> effective_limit js params = Finite (clamp x 1 100)"
  by (simp add: effective_limit_def clamp_def max_def min_def)

lemma effective_page_of_number:
  "or_default (qp_page params) 1 = PNum (Finite x)
     \<Longrightarrow> effective_page js params = Finite (max 1 x)"
  by (simp add: effective_page_def)

lemma effective_page_of_string:
  "or_default (qp_page params) 1 = PStr s \<Longrightarrow> StringToNumber js s = Finite x
     \<Longrightarrow> effective_page js params = Finite (max 1 x)"
  by (simp add: effective_page_def)

lemma effective_limit_of_value:
  assumes "qp_limit params = Some v"
  shows "effective_limit js params =
           (if truthy v
            then (case ToNumber js v of
                    NaN \<Rightarrow> NaN
                  | NegInfinity \<Rightarrow> Finite 1
                  | Finite x \<Rightarrow> Finite (clamp x 1 100)
                  | PosInfinity \<Rightarrow> Finite 100)
            else Finite 10)"
proof (cases "truthy v")
  case True
  with assms have "or_default (qp_limit params) 10 = v" by (simp add: or_default_def)
  with True show ?thesis
    by (cases "ToNumber js v") (simp_all add: effective_limit_def clamp_def max_def min_def)
next
  case False
  with assms have "or_default (qp_limit params) 10 = PNum (Finite 10)"
    by (simp add: or_default_def)
  with False show ?thesis by (simp add: effective_limit_def)
qed

lemma effective_page_of_value:
  assumes "qp_page params = Some v"
  shows "effective_page js params =
           (if truthy v
            then (case ToNumber js v of
                    NaN \<Rightarrow> NaN
                  | NegInfinity \<Rightarrow> Finite 1
                  | Finite x \<Rightarrow> Finite (max 1 x)
                  | PosInfinity \<Rightarrow> PosInfinity)
            else Finite 1)"
proof (cases "truthy v")
  case True
  with assms have "or_default (qp_page params) 1 = v" by (simp add: or_default_def)
  with True show ?thesis
    by (cases "ToNumber js v") (simp_all add: effective_page_def)
next
  case False
  with assms have "or_default (qp_page params) 1 = PNum (Finite 1)"
    by (simp add: or_default_def)
  with False show ?thesis by (simp add: effective_page_def)
qed

lemma effective_page_ge_1:
  assumes "effective_page js params = Finite x"
  shows "1 \<le> x"
proof (cases "ToNumber js (or_default (qp_page params) 1)")
  case (Finite y)
  with assms show ?thesis by (auto simp: effective_page_def)
qed (use assms in \<open>simp_all add: effective_page_def\<close>)

lemma effective_limit_range:
  assumes "effective_limit js params = Finite x"
  shows "1 \<le> x \<and> x \<le> 100"
proof (cases "ToNumber js (or_default (qp_limit params) 10)")
  case (Finite y)
  with assms show ?thesis by (auto simp: effective_limit_def)
qed (use assms in \<open>simp_all add: effective_limit_def\<close>)

lemma effective_offset_exact:
  assumes js: "exact_on_safe_integers js"
    and p: "effective_page js params = Finite (of_int p)"
    and l: "effective_limit js params = Finite (of_int l)"
    and small: "(p - 1) * l \<le> 9007199254740992"
  shows "effective_offset js params = Finite (of_int ((p - 1) * l))"
proof -
  from effective_page_ge_1 [OF p] have p1: "1 \<le> p" by simp
  from effective_limit_range [OF l] have l1: "1 \<le> l" by simp
  have "p - 1 \<le> (p - 1) * l" using p1 l1 by (simp add: mult_le_cancel_left1)
  with small p1 have "\<bar>p - 1\<bar> \<le> 9007199254740992" by simp
  with js have a: "round_double js (of_int (p - 1)) = Finite (of_int (p - 1))"
    unfolding exact_on_safe_integers_def by blast
  have "0 \<le> (p - 1) * l" using p1 l1 by simp
  with small have "\<bar>(p - 1) * l\<bar> \<le> 9007199254740992" by simp
  with js have b: "round_double js (of_int ((p - 1) * l)) = Finite (of_int ((p - 1) * l))"
    unfolding exact_on_safe_integers_def by blast
  have "js_sub js (Finite (of_int p)) (Finite 1) = round_double js (of_int (p - 1))" by simp
  with a have s: "js_sub js (Finite (of_int p)) (Finite 1) = Finite (of_int (p - 1))" by simp
  have "js_mul js (Finite (of_int (p - 1))) (Finite (of_int l))
          = round_double js (of_int ((p - 1) * l))" by simp
  with b s show ?thesis by (simp only: effective_offset_def p l)
qed

text \<open>
  Claim C5, as the code has it, in a JavaScript whose arithmetic is exact on the
  integers up to \<open>2^53\<close>. Limit: a finite number other than 0 is clamped to
  \<open>[1, 100]\<close>; absent, \<open>null\<close>, \<open>0\<close>, \<open>NaN\<close>, the empty string and \<open>false\<close> give the
  default 10; the infinities give 100 and 1; a non-empty string is converted, then
  clamped when it is a finite number, and gives \<open>NaN\<close> when it is not a number.
  Page: a finite number \<open>Pg\<close> gives \<open>max(1, Pg)\<close>; absent, \<open>null\<close>, \<open>NaN\<close>, the
  empty string and \<open>false\<close> give 1; a non-empty string is converted first. For
  any value: a falsy one gives the default, a truthy one is converted to a number
  and clamped, \<open>NaN\<close> staying \<open>NaN\<close>. Both engines send the effective limit as
  the limit and \<open>(page - 1) * limit\<close>, computed in doubles, as the offset; when
  page and limit are integers with \<open>(page - 1) * limit \<le> 2^53\<close>, that offset is
  the exact product.
\<close>
theorem C5_pagination_clamps:
  assumes "exact_on_safe_integers js"
  shows "(\<forall>L. qp_limit params = Some (PNum (Finite L)) \<and> L \<noteq> 0
            \<longrightarrow> effective_limit js params = Finite (clamp L 1 100))
       \<and> (qp_limit params \<in> {None, Some PNull, Some (PNum (Finite 0)), Some (PNum NaN),
                              Some (PStr ''''), Some (PBool False)}
            \<longrightarrow> effective_limit js params = Finite 10)
       \<and> (qp_limit params = Some (PNum PosInfinity) \<longrightarrow> effective_limit js params = Finite 100)
       \<and> (qp_limit params = Some (PNum NegInfinity) \<longrightarrow> effective_limit js params = Finite 1)
       \<and> (\<forall>s x. qp_limit params = Some (PStr s) \<and> s \<noteq> '''' \<and> StringToNumber js s = Finite x
            \<longrightarrow> effective_limit js params = Finite (clamp x 1 100))
       \<and> (\<forall>s. qp_limit params = Some (PStr s) \<and> s \<noteq> '''' \<and> StringToNumber js s = NaN
            \<longrightarrow> effective_limit js params = NaN)
       \<and> (\<forall>v. qp_limit params = Some v
            \<longrightarrow> effective_limit js params =
                  (if truthy v
                   then (case ToNumber js v of
                           NaN \<Rightarrow> NaN
                         | NegInfinity \<Rightarrow> Finite 1
                         | Finite x \<Rightarrow> Finite (clamp x 1 100)
                         | PosInfinity \<Rightarrow> Finite 100)
                   else Finite 10))
       \<and> (\<forall>Pg. qp_page params = Some (PNum (Finite Pg))
            \<longrightarrow> effective_page js params = Finite (max 1 Pg))
       \<and> (qp_page params \<in> {None, Some PNull, Some (PNum NaN), Some (PStr ''''), Some (PBool False)}
            \<longrightarrow> effective_page js params = Finite 1)
       \<and> (\<forall>s x. qp_page params = Some (PStr s) \<and> s \<noteq> '''' \<and> StringToNumber js s = Finite x
            \<longrightarrow> effective_page js params = Finite (max 1 x))
       \<and> (\<forall>v. qp_page params = Some v
            \<longrightarrow> effective_page js params =
                  (if truthy v
                   then (case ToNumber js v of
                           NaN \<Rightarrow> NaN
                         | NegInfinity \<Rightarrow> Finite 1
                         | Finite x \<Rightarrow> Finite (max 1 x)
                         | PosInfinity \<Rightarrow> PosInfinity)
                   else Finite 1))
       \<and> q_limit (GenericCrudEngine_findMany_query js cols params) = Some (effective_limit js params)
       \<and> q_offset (GenericCrudEngine_findMany_query js cols params)
            = Some (js_mul js (js_sub js (effective_page js params) (Finite 1))
                      (effective_limit js params))
       \<and> q_limit (CrudHandler_findMany_query js cols params) = Some (effective_limit js params)
       \<and> q_offset (CrudHandler_findMany_query js cols params)
            = Some (js_mul js (js_sub js (effective_page js params) (Finite 1))
                      (effective_limit js params))
       \<and> (\<forall>p l. effective_page js params = Finite (of_int p)
                \<and> effective_limit js params = Finite (of_int l)
                \<and> (p - 1) * l \<le> 9007199254740992
            \<longrightarrow> js_mul js (js_sub js (effective_page js params) (Finite 1))
                   (effective_limit js params) = Finite (of_int ((p - 1) * l)))"
proof (intro conjI allI impI)
  fix L assume "qp_limit params = Some (PNum (Finite L)) \<and> L \<noteq> 0"
  then have "or_default (qp_limit params) 10 = PNum (Finite L)" by (simp add: or_default_def)
  then show "effective_limit js params = Finite (clamp L 1 100)"
    by (rule effective_limit_of_number)
next
  assume "qp_limit params \<in> {None, Some PNull, Some (PNum (Finite 0)), Some (PNum NaN),
                              Some (PStr ''''), Some (PBool False)}"
  then have "or_default (qp_limit params) 10 = PNum (Finite 10)"
    by (auto simp: or_default_def)
  then have "effective_limit js params = Finite (clamp 10 1 100)"
    by (rule effective_limit_of_number)
  then show "effective_limit js params = Finite 10" by (simp add: clamp_def)
next
  assume "qp_limit params = Some (PNum PosInfinity)"
  then show "effective_limit js params = Finite 100"
    by (simp add: effective_limit_def or_default_def)
next
  assume "qp_limit params = Some (PNum NegInfinity)"
  then show "effective_limit js params = Finite 1"
    by (simp add: effective_limit_def or_default_def)
next
  fix s x assume a: "qp_limit params = Some (PStr s) \<and> s \<noteq> '''' \<and> StringToNumber js s = Finite x"
  then have "or_default (qp_limit params) 10 = PStr s" by (simp add: or_default_def)
  with a show "effective_limit js params = Finite (clamp x 1 100)"
    by (simp add: effective_limit_of_string)
next
  fix s assume "qp_limit params = Some (PStr s) \<and> s \<noteq> '''' \<and> StringToNumber js s = NaN"
  then show "effective_limit js params = NaN"
    by (simp add: effective_limit_def or_default_def)
next
  fix v assume "qp_limit params = Some v"
  then show "effective_limit js params =
                  (if truthy v
                   then (case ToNumber js v of
                           NaN \<Rightarrow> NaN
                         | NegInfinity \<Rightarrow> Finite 1
                         | Finite x \<Rightarrow> Finite (clamp x 1 100)
                         | PosInfinity \<Rightarrow> Finite 100)
                   else Finite 10)"
    by (rule effective_limit_of_value)
next
  fix Pg assume a: "qp_page params = Some (PNum (Finite Pg))"
  show "effective_page js params = Finite (max 1 Pg)"
  proof (cases "Pg = 0")
    case True
    with a have "or_default (qp_page params) 1 = PNum (Finite 1)" by (simp add: or_default_def)
    then have "effective_page js params = Finite (max 1 1)" by (rule effective_page_of_number)
    with True show ?thesis by simp
  next
    case False
    with a have "or_default (qp_page params) 1 = PNum (Finite Pg)" by (simp add: or_default_def)
    then show ?thesis by (rule effective_page_of_number)
  qed
next
  assume "qp_page params \<in> {None, Some PNull, Some (PNum NaN), Some (PStr ''''), Some (PBool False)}"
  then have "or_default (qp_page params) 1 = PNum (Finite 1)"
    by (auto simp: or_default_def)
  then have "effective_page js params = Finite (max 1 1)" by (rule effective_page_of_number)
  then show "effective_page js params = Finite 1" by simp
next
  fix s x assume a: "qp_page params = Some (PStr s) \<and> s \<noteq> '''' \<and> StringToNumber js s = Finite x"
  then have "or_default (qp_page params) 1 = PStr s" by (simp add: or_default_def)
  with a show "effective_page js params = Finite (max 1 x)"
    by (simp add: effective_page_of_string)
next
  fix v assume "qp_page params = Some v"
  then show "effective_page js params =
                  (if truthy v
                   then (case ToNumber js v of
                           NaN \<Rightarrow> NaN
                         | NegInfinity \<Rightarrow> Finite 1
                         | Finite x \<Rightarrow> Finite (max 1 x)
                         | PosInfinity \<Rightarrow> PosInfinity)
                   else Finite 1)"
    by (rule effective_page_of_value)
next
  show "q_limit (GenericCrudEngine_findMany_query js cols params) = Some (effective_limit js params)"
    by (simp add: GenericCrudEngine_findMany_query_def)
  show "q_offset (GenericCrudEngine_findMany_query js cols params)
            = Some (js_mul js (js_sub js (effective_page js params) (Finite 1))
                      (effective_limit js params))"
    by (simp add: GenericCrudEngine_findMany_query_def effective_offset_def)
  show "q_limit (CrudHandler_findMany_query js cols params) = Some (effective_limit js params)"
    by (simp add: CrudHandler_findMany_query_def)
  show "q_offset (CrudHandler_findMany_query js cols params)
            = Some (js_mul js (js_sub js (effective_page js params) (Finite 1))
                      (effective_limit js params))"
    by (simp add: CrudHandler_findMany_query_def effective_offset_def)
next
  fix p l
  assume a: "effective_page js params = Finite (of_int p)
                \<and> effective_limit js params = Finite (of_int l)
                \<and> (p - 1) * l \<le> 9007199254740992"
  then have "effective_offset js params = Finite (of_int ((p - 1) * l))"
    using effective_offset_exact [OF assms, of params p l] by blast
  then show "js_mul js (js_sub js (effective_page js params) (Finite 1))
                   (effective_limit js params) = Finite (of_int ((p - 1) * l))"
    by (simp add: effective_offset_def)
qed

lemma example_js_exact: "exact_on_safe_integers example_js"
  by (simp add: exact_on_safe_integers_def example_js_def)

text \<open>
  Claim C5 on numbers and on the strings a route hands on: limit 250 gives 100 and
  page -3 gives page 1, offset 0; limit -5 gives 1; page 3 with limit 5 gives
  offset 10; the strings \<open>2\<close> and \<open>25\<close> give page 2, limit 25, offset 25; the
  string \<open>0\<close> is not empty, so it is converted and clamped to 1.
\<close>
theorem C5_pagination_clamps_witness:
  "exact_on_safe_integers example_js
   \<and> effective_limit example_js
        (no_params\<lparr>qp_page := Some (PNum (Finite (- 3))), qp_limit := Some (PNum (Finite 250))\<rparr>)
       = Finite 100
   \<and> effective_page example_js
        (no_params\<lparr>qp_page := Some (PNum (Finite (- 3))), qp_limit := Some (PNum (Finite 250))\<rparr>)
       = Finite 1
   \<and> q_offset (GenericCrudEngine_findMany_query example_js users_cols
        (no_params\<lparr>qp_page := Some (PNum (Finite (- 3))), qp_limit := Some (PNum (Finite 250))\<rparr>))
       = Some (Finite 0)
   \<and> effective_limit example_js
        (no_params\<lparr>qp_page := Some (PNum (Finite 3)), qp_limit := Some (PNum (Finite (- 5)))\<rparr>)
       = Finite 1
   \<and> q_offset (CrudHandler_findMany_query example_js users_cols
        (no_params\<lparr>qp_page := Some (PNum (Finite 3)), qp_limit := Some (PNum (Finite 5))\<rparr>))
       = Some (Finite 10)
   \<and> effective_limit example_js (no_params\<lparr>qp_page := Some (PStr ''2''), qp_limit := Some (PStr ''25'')\<rparr>)
       = Finite 25
   \<and> q_offset (CrudHandler_findMany_query example_js users_cols
        (no_params\<lparr>qp_page := Some (PStr ''2''), qp_limit := Some (PStr ''25'')\<rparr>))
       = Some (Finite 25)
   \<and> effective_limit example_js (no_params\<lparr>qp_limit := Some (PStr ''0'')\<rparr>) = Finite 1"
  using C5_pagination_clamps [OF example_js_exact,
      of "no_params\<lparr>qp_page := Some (PNum (Finite (- 3))), qp_limit := Some (PNum (Finite 250))\<rparr>"
         users_cols]
    C5_pagination_clamps [OF example_js_exact,
      of "no_params\<lparr>qp_page := Some (PNum (Finite 3)), qp_limit := Some (PNum (Finite (- 5)))\<rparr>"
         users_cols]
    C5_pagination_clamps [OF example_js_exact,
      of "no_params\<lparr>qp_page := Some (PNum (Finite 3)), qp_limit := Some (PNum (Finite 5))\<rparr>"
         users_cols]
    C5_pagination_clamps [OF example_js_exact,
      of "no_params\<lparr>qp_page := Some (PStr ''2''), qp_limit := Some (PStr ''25'')\<rparr>" users_cols]
    C5_pagination_clamps [OF example_js_exact, of "no_params\<lparr>qp_limit := Some (PStr ''0'')\<rparr>"
         users_cols]
    example_js_exact
  by (simp add: no_params_def clamp_def example_js_def)

text \<open>
  Claim C5 as worded fails at the limit 0: the limit sent is the default 10, and
  \<open>clamp(0, 1, 100)\<close> is 1.
\<close>
theorem C5_zero_limit_counterexample:
  "effective_limit example_js (no_params\<lparr>qp_limit := Some (PNum (Finite 0))\<rparr>) = Finite 10
   \<and> clamp 0 1 100 = 1
   \<and> q_limit (GenericCrudEngine_findMany_query example_js users_cols
                 (no_params\<lparr>qp_limit := Some (PNum (Finite 0))\<rparr>))
        \<noteq> Some (Finite (clamp 0 1 100))"
  by (simp add: effective_limit_def or_default_def clamp_def no_params_def
        GenericCrudEngine_findMany_query_def)

section \<open>Backend errors on the write paths\<close>

lemma rethrow_insert:
  assumes "fst (db_insert db rows s) = Inl e"
  shows "fst (case db_insert db rows s of (Inl e, s') \<Rightarrow> (Inl e, s')
              | (Inr result, s') \<Rightarrow> (Inr (first_or_null result), s')) = Inl e"
  using assms by (cases "db_insert db rows s") (auto split: sum.splits)

text \<open>
  Claim C9. \<open>delete\<close> of \<open>GenericCrudEngine\<close> and of \<open>CrudHandler\<close> returns
  \<open>false\<close> when the backend throws, as it does when no row was changed. When the
  insert that \<open>create\<close>, \<open>bulkCreate\<close> or \<open>update\<close> sends throws, and when the
  select of \<open>update\<close> throws, the operation throws the same error.
\<close>
theorem C9_delete_swallows_writes_rethrow:
  "(fst (db_update db [''deleted_at'' \<mapsto> JDate now] (active_by_id cols i) s) = Inl e
      \<longrightarrow> fst (GenericCrudEngine_delete db cols i now s) = False)
   \<and> (fst (db_update db [''deleted_at'' \<mapsto> JDate now] (active_by_id cols i) s) = Inr []
      \<longrightarrow> fst (GenericCrudEngine_delete db cols i now s) = False)
   \<and> (fst (db_update db [''deleted_at'' \<mapsto> JDate now] (CrudHandler_active_by_id i) s) = Inl e
      \<longrightarrow> fst (CrudHandler_delete db i now s) = False)
   \<and> (fst (db_update db [''deleted_at'' \<mapsto> JDate now] (CrudHandler_active_by_id i) s) = Inr []
      \<longrightarrow> fst (CrudHandler_delete db i now s) = False)
   \<and> (fst (db_insert db [dat(''id'' \<mapsto> JStr newId, ''created_at'' \<mapsto> JDate now)] s) = Inl e
      \<longrightarrow> fst (GenericCrudEngine_create db dat newId now s) = Inl e)
   \<and> (fst (db_insert db [dat(''id'' \<mapsto> JStr newId)] s) = Inl e
      \<longrightarrow> fst (CrudHandler_create db dat newId s) = Inl e)
   \<and> (fst (db_insert db (GenericCrudEngine_newRecords items newIds nows) s) = Inl e
      \<longrightarrow> fst (GenericCrudEngine_bulkCreate db items newIds nows s) = Inl e)
   \<and> (fst (db_insert db (CrudHandler_newRecords items newIds) s) = Inl e
      \<longrightarrow> fst (CrudHandler_bulkCreate db items newIds s) = Inl e)
   \<and> (db_select db (select_first (active_by_id cols i)) s = Inl e
      \<longrightarrow> fst (GenericCrudEngine_update db cols i dat newId now s) = Inl e)
   \<and> (db_select db (select_first (CrudHandler_active_by_id i)) s = Inl e
      \<longrightarrow> fst (CrudHandler_update db i dat now s) = Inl e)
   \<and> (db_select db (select_first (active_by_id cols i)) s = Inr (parent # rest)
        \<and> fst (db_insert db [GenericCrudEngine_newRecordData parent dat newId now] s) = Inl e
      \<longrightarrow> fst (GenericCrudEngine_update db cols i dat newId now s) = Inl e)
   \<and> (db_select db (select_first (CrudHandler_active_by_id i)) s = Inr (parent # rest)
        \<and> fst (db_insert db [CrudHandler_newRecordData parent dat now] s) = Inl e
      \<longrightarrow> fst (CrudHandler_update db i dat now s) = Inl e)"
proof -
  have del_g: "fst (GenericCrudEngine_delete db cols i now s) = False"
    if "fst (db_update db [''deleted_at'' \<mapsto> JDate now] (active_by_id cols i) s) = Inl e
        \<or> fst (db_update db [''deleted_at'' \<mapsto> JDate now] (active_by_id cols i) s) = Inr []"
    using that by (auto simp: GenericCrudEngine_delete_def split: prod.splits sum.splits)
  have del_h: "fst (CrudHandler_delete db i now s) = False"
    if "fst (db_update db [''deleted_at'' \<mapsto> JDate now] (CrudHandler_active_by_id i) s) = Inl e
        \<or> fst (db_update db [''deleted_at'' \<mapsto> JDate now] (CrudHandler_active_by_id i) s) = Inr []"
    using that by (auto simp: CrudHandler_delete_def split: prod.splits sum.splits)
  have cr_g: "fst (GenericCrudEngine_create db dat newId now s) = Inl e"
    if "fst (db_insert db [dat(''id'' \<mapsto> JStr newId, ''created_at'' \<mapsto> JDate now)] s) = Inl e"
    using rethrow_insert [OF that] by (simp add: GenericCrudEngine_create_def)
  have cr_h: "fst (CrudHandler_create db dat newId s) = Inl e"
    if "fst (db_insert db [dat(''id'' \<mapsto> JStr newId)] s) = Inl e"
    using rethrow_insert [OF that] by (simp add: CrudHandler_create_def)
  have bulk_g: "fst (GenericCrudEngine_bulkCreate db items newIds nows s) = Inl e"
    if "fst (db_insert db (GenericCrudEngine_newRecords items newIds nows) s) = Inl e"
    using that by (simp add: GenericCrudEngine_bulkCreate_def)
  have bulk_h: "fst (CrudHandler_bulkCreate db items newIds s) = Inl e"
    if "fst (db_insert db (CrudHandler_newRecords items newIds) s) = Inl e"
    using that by (simp add: CrudHandler_bulkCreate_def)
  have upd_sel: "fst (GenericCrudEngine_update db cols i dat newId now s) = Inl e"
    if "db_select db (select_first (active_by_id cols i)) s = Inl e"
    using that by (simp add: GenericCrudEngine_update_def)
  have upd_sel_h: "fst (CrudHandler_update db i dat now s) = Inl e"
    if "db_select db (select_first (CrudHandler_active_by_id i)) s = Inl e"
    using that by (simp add: CrudHandler_update_def)
  have upd_ins: "fst (GenericCrudEngine_update db cols i dat newId now s) = Inl e"
    if "db_select db (select_first (active_by_id cols i)) s = Inr (parent # rest)"
      "fst (db_insert db [GenericCrudEngine_newRecordData parent dat newId now] s) = Inl e"
    using rethrow_insert [OF that(2)] that(1) by (simp add: GenericCrudEngine_update_def)
  have upd_ins_h: "fst (CrudHandler_update db i dat now s) = Inl e"
    if "db_select db (select_first (CrudHandler_active_by_id i)) s = Inr (parent # rest)"
      "fst (db_insert db [CrudHandler_newRecordData parent dat now] s) = Inl e"
    using rethrow_insert [OF that(2)] that(1) by (simp add: CrudHandler_update_def)
  show ?thesis
    using del_g del_h cr_g cr_h bulk_g bulk_h upd_sel upd_sel_h upd_ins upd_ins_h by blast
qed

text \<open>
  Claim C9 on a backend that refuses every call, on one that holds no row, and on
  one that answers reads and rejects the row offered: there \<open>update\<close> finds its
  parent and throws the error of the insert.
\<close>
theorem C9_delete_swallows_writes_rethrow_witness:
  "fst (db_update failing_db [''deleted_at'' \<mapsto> JDate 5] (active_by_id users_cols ''u1'') ())
     = Inl ''connection refused''
   \<and> fst (db_update empty_db [''deleted_at'' \<mapsto> JDate 5] (active_by_id users_cols ''u1'') ()) = Inr []
   \<and> fst (GenericCrudEngine_delete failing_db users_cols ''u1'' 5 ()) = False
   \<and> fst (GenericCrudEngine_delete empty_db users_cols ''u1'' 5 ()) = False
   \<and> fst (CrudHandler_delete failing_db ''u1'' 5 ()) = False
   \<and> fst (CrudHandler_delete empty_db ''u1'' 5 ()) = False
   \<and> fst (GenericCrudEngine_create failing_db Map.empty ''n1'' 5 ()) = Inl ''connection refused''
   \<and> fst (CrudHandler_create failing_db Map.empty ''n1'' ()) = Inl ''connection refused''
   \<and> fst (GenericCrudEngine_update failing_db users_cols ''u1'' Map.empty ''n1'' 5 ())
       = Inl ''connection refused''
   \<and> fst (GenericCrudEngine_bulkCreate failing_db [Map.empty] (\<lambda>k. ''n1'') (\<lambda>k. 5) ())
       = Inl ''connection refused''
   \<and> db_select rejecting_db (select_first (active_by_id users_cols ''u1'')) ()
       = Inr [[''id'' \<mapsto> JStr ''u1'', ''created_at'' \<mapsto> JDate 1]]
   \<and> fst (GenericCrudEngine_update rejecting_db users_cols ''u1'' [''name'' \<mapsto> JStr ''B''] ''n1'' 5 ())
       = Inl ''constraint violation''
   \<and> fst (CrudHandler_update rejecting_db ''u1'' [''name'' \<mapsto> JStr ''B''] 5 ())
       = Inl ''constraint violation''
   \<and> fst (GenericCrudEngine_create rejecting_db [''name'' \<mapsto> JStr ''B''] ''n1'' 5 ())
       = Inl ''constraint violation''"
  using C9_delete_swallows_writes_rethrow [of failing_db 5 users_cols "''u1''" "()" "''connection refused''"
      Map.empty "''n1''" "[Map.empty]" "\<lambda>k. ''n1''" "\<lambda>k. 5"]
    C9_delete_swallows_writes_rethrow [of empty_db 5 users_cols "''u1''" "()" "''connection refused''"]
    C9_delete_swallows_writes_rethrow [of rejecting_db 5 users_cols "''u1''" "()" "''constraint violation''"
      "[''name'' \<mapsto> JStr ''B'']" "''n1''" "[]" "\<lambda>k. ''n1''" "\<lambda>k. 5"
      "[''id'' \<mapsto> JStr ''u1'', ''created_at'' \<mapsto> JDate 1]" "[]"]
  by (simp add: failing_db_def empty_db_def rejecting_db_def)

end
